theory Spec2Isabelle
  imports Main "HOL-Library.AList" "HOL-Library.Multiset"
begin

section \<open>Exceptions as values\<close>

text \<open>
  The three exception classes of \<^verbatim>\<open>exceptions.py\<close>, and the built-in exceptions
  the modelled code can run into. A function that can raise returns \<open>error + 'a\<close>,
  \<open>Inl\<close> being the raised exception.
\<close>

datatype error =
    ConnectionsFailed
  | CantGetData
  | InvalidDate
  | KeyError
  | ValueError
  | AttributeError
  | OverflowError
  | TransportError

definition bind_res :: "error + 'a \<Rightarrow> ('a \<Rightarrow> error + 'b) \<Rightarrow> error + 'b" where
  "bind_res m f = (case m of Inl e \<Rightarrow> Inl e | Inr x \<Rightarrow> f x)"

text \<open>A list comprehension whose element expression can raise: the first exception wins.\<close>

fun map_res :: "('a \<Rightarrow> error + 'b) \<Rightarrow> 'a list \<Rightarrow> error + 'b list" where
  "map_res f [] = Inr []"
| "map_res f (x # xs) =
     (case f x of
        Inl e \<Rightarrow> Inl e
      | Inr y \<Rightarrow> (case map_res f xs of Inl e \<Rightarrow> Inl e | Inr ys \<Rightarrow> Inr (y # ys)))"

section \<open>Python dictionaries and sets\<close>

text \<open>
  A \<^verbatim>\<open>dict\<close> is an association list with unique keys in insertion order.
  \<open>py_dict\<close> is \<^verbatim>\<open>dict(pairs)\<close>: a later pair with a key already present
  replaces the value and keeps the key's position. \<open>getitem\<close> is \<^verbatim>\<open>d[k]\<close>.
\<close>

type_synonym row = "(string \<times> string) list"

definition py_dict :: "('k \<times> 'v) list \<Rightarrow> ('k \<times> 'v) list" where
  "py_dict ps = foldl (\<lambda>d (k, v). AList.update k v d) [] ps"

definition getitem :: "row \<Rightarrow> string \<Rightarrow> error + string" where
  "getitem d k = (case map_of d k of None \<Rightarrow> Inl KeyError | Some v \<Rightarrow> Inr v)"

text \<open>
  A \<^verbatim>\<open>set\<close> built from a sequence is kept as the list of its distinct
  elements, so \<^verbatim>\<open>len\<close> is \<open>length\<close>. The order in which Python iterates over
  a set is not fixed by the language; it is a parameter of the model (\<open>set_iter\<close> below).
\<close>

definition py_set :: "string list \<Rightarrow> string list" where
  "py_set xs = remdups xs"

section \<open>Column labels of the service-level report\<close>

text \<open>
  The dictionary keys read by \<^verbatim>\<open>_formating_service_level_data\<close>
  (service_level.py, lines 192--198) and the group name of the aggregate record
  (line 219). The source literals are Cyrillic; they are given here as their UTF-8
  bytes, in the order in which the source reads them.
\<close>

definition col_day :: string where
  "col_day = [CHR 0xD0, CHR 0x94, CHR 0xD0, CHR 0xB5, CHR 0xD0, CHR 0xBD, CHR 0xD1, CHR 0x8C]"

definition col_group :: string where
  "col_group = [CHR 0xD0, CHR 0x93, CHR 0xD1, CHR 0x80, CHR 0xD1, CHR 0x83, CHR 0xD0, CHR 0xBF,
     CHR 0xD0, CHR 0xBF, CHR 0xD0, CHR 0xB0]"

definition col_total_issues :: string where
  "col_total_issues = [CHR 0xD0, CHR 0x9F, CHR 0xD0, CHR 0xBE, CHR 0xD1, CHR 0x81, CHR 0xD1,
     CHR 0x82, CHR 0xD1, CHR 0x83, CHR 0xD0, CHR 0xBF, CHR 0xD0, CHR 0xB8, CHR 0xD0, CHR 0xBB,
     CHR 0xD0, CHR 0xBE, CHR 0x20, CHR 0xD0, CHR 0xB2, CHR 0x20, CHR 0xD0, CHR 0xA2, CHR 0xD0,
     CHR 0x9F]"

definition col_total_primary_issues :: string where
  "col_total_primary_issues = [CHR 0xD0, CHR 0x9A, CHR 0xD0, CHR 0xBE, CHR 0xD0, CHR 0xBB,
     CHR 0xD0, CHR 0xB8, CHR 0xD1, CHR 0x87, CHR 0xD0, CHR 0xB5, CHR 0xD1, CHR 0x81, CHR 0xD1,
     CHR 0x82, CHR 0xD0, CHR 0xB2, CHR 0xD0, CHR 0xBE, CHR 0x20, CHR 0xD0, CHR 0xBF, CHR 0xD0,
     CHR 0xB5, CHR 0xD1, CHR 0x80, CHR 0xD0, CHR 0xB2, CHR 0xD0, CHR 0xB8, CHR 0xD1, CHR 0x87,
     CHR 0xD0, CHR 0xBD, CHR 0xD1, CHR 0x8B, CHR 0xD1, CHR 0x85]"

definition col_before_deadline :: string where
  "col_before_deadline = [CHR 0xD0, CHR 0x9F, CHR 0xD1, CHR 0x80, CHR 0xD0, CHR 0xB8, CHR 0xD0,
     CHR 0xBD, CHR 0xD1, CHR 0x8F, CHR 0xD1, CHR 0x82, CHR 0xD0, CHR 0xBE, CHR 0x20, CHR 0xD0,
     CHR 0xB7, CHR 0xD0, CHR 0xB0, CHR 0x20, CHR 0x31, CHR 0x35, CHR 0x20, CHR 0xD0, CHR 0xBC,
     CHR 0xD0, CHR 0xB8, CHR 0xD0, CHR 0xBD, CHR 0xD1, CHR 0x83, CHR 0xD1, CHR 0x82]"

definition col_after_deadline :: string where
  "col_after_deadline = [CHR 0xD0, CHR 0x92, CHR 0x20, CHR 0xD0, CHR 0xBE, CHR 0xD1, CHR 0x87,
     CHR 0xD0, CHR 0xB5, CHR 0xD1, CHR 0x80, CHR 0xD0, CHR 0xB5, CHR 0xD0, CHR 0xB4, CHR 0xD0,
     CHR 0xB8, CHR 0x20, CHR 0xD0, CHR 0xB1, CHR 0xD0, CHR 0xBE, CHR 0xD0, CHR 0xBB, CHR 0xD0,
     CHR 0xB5, CHR 0xD0, CHR 0xB5, CHR 0x20, CHR 0x31, CHR 0x35, CHR 0x20, CHR 0xD0, CHR 0xBC,
     CHR 0xD0, CHR 0xB8, CHR 0xD0, CHR 0xBD]"

definition col_service_level :: string where
  "col_service_level = ''Service Level (%)''"

definition total_group :: string where
  "total_group = [CHR 0xD0, CHR 0x98, CHR 0xD1, CHR 0x82, CHR 0xD0, CHR 0xBE, CHR 0xD0, CHR 0xB3]"

text \<open>
  The seven labels in the order in which \<^verbatim>\<open>_service_lavel_data_completion\<close>
  lays out the cells of a synthesized row (lines 153 and 164).
\<close>

definition sl_columns :: "string list" where
  "sl_columns = [col_day, col_group, col_total_issues, col_total_primary_issues,
     col_before_deadline, col_after_deadline, col_service_level]"

text \<open>A row of the report table under the seven labels.\<close>

definition sl_row ::
  "string \<Rightarrow> string \<Rightarrow> string \<Rightarrow> string \<Rightarrow> string \<Rightarrow> string \<Rightarrow> string \<Rightarrow> row" where
  "sl_row d g ti tp nb na sl = zip sl_columns [d, g, ti, tp, nb, na, sl]"

section \<open>The run-time environment\<close>

text \<open>
  What the parser takes from outside the repository: Python's conversions \<^verbatim>\<open>int\<close>,
  \<^verbatim>\<open>str\<close> and \<^verbatim>\<open>float\<close>, float arithmetic (the type \<open>'f\<close> of floats
  is left open, so every result holds for IEEE doubles as for any other reading), the
  iteration order of a set, the calendar (\<^verbatim>\<open>date.day\<close> of a date given by its
  ordinal), the clock (\<^verbatim>\<open>datetime.now().day\<close>) and the entry
  \<^verbatim>\<open>CONFIG.config["defaul_group_name"]["value"]\<close> of the configuration.
\<close>

record 'f runtime =
  py_int :: "string \<Rightarrow> int option"
  py_str :: "int \<Rightarrow> string"
  py_float :: "string \<Rightarrow> 'f option"
  float_zero :: 'f
  true_div :: "int \<Rightarrow> int \<Rightarrow> 'f option"
  float_mul :: "'f \<Rightarrow> int \<Rightarrow> 'f"
  py_round :: "'f \<Rightarrow> int \<Rightarrow> 'f"
  set_iter :: "string list \<Rightarrow> string list"
  day_of :: "int \<Rightarrow> int"
  today :: int
  default_group :: "string list"

definition to_int :: "'f runtime \<Rightarrow> string \<Rightarrow> error + int" where
  "to_int rt s = (case py_int rt s of None \<Rightarrow> Inl ValueError | Some n \<Rightarrow> Inr n)"

definition to_float :: "'f runtime \<Rightarrow> string \<Rightarrow> error + 'f" where
  "to_float rt s = (case py_float rt s of None \<Rightarrow> Inl ValueError | Some x \<Rightarrow> Inr x)"

section \<open>The service-level parser (parser/service\_level.py)\<close>

subsection \<open>Records\<close>

text \<open>
  The dataclass \<^verbatim>\<open>ServiceLevel\<close>. Its field \<^verbatim>\<open>day\<close> is annotated
  \<^verbatim>\<open>int\<close> but receives the cell text of the row (line 192), or the integer key
  of the day when the day has no row at all; both are kept apart here.
\<close>

datatype day_value = DayText string | DayKey int

record 'f ServiceLevel =
  day :: day_value
  group_name :: string
  total_issues :: int
  total_primary_issues :: int
  num_issues_before_deadline :: int
  num_issues_after_deadline :: int
  service_level :: 'f

text \<open>
  The day number a record carries: what \<^verbatim>\<open>int\<close> makes of the cell text, or the key
  itself.
\<close>

fun day_number :: "'f runtime \<Rightarrow> day_value \<Rightarrow> int option" where
  "day_number rt (DayText t) = py_int rt t"
| "day_number rt (DayKey k) = Some k"

type_synonym days = "(int \<times> row list) list"

subsection \<open>Completion of the day buckets\<close>

definition synthesized_row :: "'f runtime \<Rightarrow> string list \<Rightarrow> int \<Rightarrow> string \<Rightarrow> string \<Rightarrow> row" where
  "synthesized_row rt lable d g sl =
     py_dict (zip lable [py_str rt d, g, ''0'', ''0'', ''0'', ''0'', sl])"

definition sl_text :: "'f runtime \<Rightarrow> int \<Rightarrow> string" where
  "sl_text rt d = (if today rt \<ge> d then ''100.0'' else ''0.0'')"

text \<open>One iteration of the loop of \<^verbatim>\<open>_service_lavel_data_completion\<close> (lines 146--166).\<close>

definition complete_day ::
  "'f runtime \<Rightarrow> string list \<Rightarrow> string list \<Rightarrow> int \<times> row list \<Rightarrow> error + (int \<times> row list)" where
  "complete_day rt groups lable entry =
     (case entry of (d, content) \<Rightarrow>
        if length content = 0 then
          Inr (d, map (\<lambda>g. synthesized_row rt lable d g (sl_text rt d)) groups)
        else if length content \<noteq> 2 then
          (case map_res (\<lambda>r. getitem r col_group) content of
             Inl e \<Rightarrow> Inl e
           | Inr day_groups \<Rightarrow>
               Inr (d, content @
                  map (\<lambda>g. synthesized_row rt lable d g (sl_text rt d))
                    (filter (\<lambda>g. g \<notin> set day_groups) groups)))
        else Inr (d, content))"

definition service_lavel_data_completion ::
  "'f runtime \<Rightarrow> days \<Rightarrow> string list \<Rightarrow> string list \<Rightarrow> error + days" where
  "service_lavel_data_completion rt ds groups lable = map_res (complete_day rt groups lable) ds"

subsection \<open>Formatting and aggregation\<close>

text \<open>The body of the inner loop (lines 192--212): one row becomes one record.\<close>

definition format_row :: "'f runtime \<Rightarrow> row \<Rightarrow> error + 'f ServiceLevel" where
  "format_row rt data =
     bind_res (getitem data col_day) (\<lambda>d.
     bind_res (getitem data col_group) (\<lambda>g.
     bind_res (bind_res (getitem data col_total_issues) (to_int rt)) (\<lambda>ti.
     bind_res (bind_res (getitem data col_total_primary_issues) (to_int rt)) (\<lambda>tp.
     bind_res (bind_res (getitem data col_before_deadline) (to_int rt)) (\<lambda>nb.
     bind_res (bind_res (getitem data col_after_deadline) (to_int rt)) (\<lambda>na.
     bind_res (bind_res (getitem data col_service_level) (to_float rt)) (\<lambda>sl.
       Inr \<lparr>day = DayText d, group_name = g, total_issues = ti, total_primary_issues = tp,
            num_issues_before_deadline = nb, num_issues_after_deadline = na,
            service_level = sl\<rparr>)))))))"

text \<open>
  The state of the inner loop: the variable \<^verbatim>\<open>day\<close> (rebound by every row), the
  records collected so far and the four running sums.
\<close>

record 'f day_acc =
  acc_day :: day_value
  day_records :: "'f ServiceLevel list"
  gen_total_issues :: int
  gen_total_primary_issues :: int
  gen_num_issues_before_deadline :: int
  gen_num_issues_after_deadline :: int

fun format_rows :: "'f runtime \<Rightarrow> row list \<Rightarrow> 'f day_acc \<Rightarrow> error + 'f day_acc" where
  "format_rows rt [] acc = Inr acc"
| "format_rows rt (data # rest) acc =
     (case format_row rt data of
        Inl e \<Rightarrow> Inl e
      | Inr sl \<Rightarrow>
          format_rows rt rest
            \<lparr>acc_day = day sl,
             day_records = day_records acc @ [sl],
             gen_total_issues = gen_total_issues acc + total_issues sl,
             gen_total_primary_issues = gen_total_primary_issues acc + total_primary_issues sl,
             gen_num_issues_before_deadline =
               gen_num_issues_before_deadline acc + num_issues_before_deadline sl,
             gen_num_issues_after_deadline =
               gen_num_issues_after_deadline acc + num_issues_after_deadline sl\<rparr>)"

text \<open>Lines 215--217: the aggregate percentage, recomputed from the sums.\<close>

definition gen_service_level :: "'f runtime \<Rightarrow> int \<Rightarrow> int \<Rightarrow> error + 'f" where
  "gen_service_level rt before tot =
     (if tot \<noteq> 0 then
        (case true_div rt before tot of
           None \<Rightarrow> Inl OverflowError
         | Some q \<Rightarrow> Inr (py_round rt (float_mul rt q 100) 1))
      else Inr (float_zero rt))"

text \<open>One iteration of the outer loop (lines 184--230).\<close>

definition format_day :: "'f runtime \<Rightarrow> int \<times> row list \<Rightarrow> error + 'f ServiceLevel list" where
  "format_day rt entry =
     (case entry of (d, group_data) \<Rightarrow>
        bind_res
          (format_rows rt group_data
             \<lparr>acc_day = DayKey d, day_records = [], gen_total_issues = 0,
              gen_total_primary_issues = 0, gen_num_issues_before_deadline = 0,
              gen_num_issues_after_deadline = 0\<rparr>)
          (\<lambda>acc.
             bind_res
               (gen_service_level rt (gen_num_issues_before_deadline acc) (gen_total_issues acc))
               (\<lambda>gsl.
                  Inr (day_records acc @
                    [\<lparr>day = acc_day acc, group_name = total_group,
                      total_issues = gen_total_issues acc,
                      total_primary_issues = gen_total_primary_issues acc,
                      num_issues_before_deadline = gen_num_issues_before_deadline acc,
                      num_issues_after_deadline = gen_num_issues_after_deadline acc,
                      service_level = gsl\<rparr>]))))"

definition formating_service_level_data ::
  "'f runtime \<Rightarrow> days \<Rightarrow> error + 'f ServiceLevel list list" where
  "formating_service_level_data rt ds = map_res (format_day rt) ds"

subsection \<open>The page and the helpers of parser\_base\<close>

text \<open>
  \<^verbatim>\<open>parse\<close> reads the page through helpers of \<^verbatim>\<open>parser_base\<close> and through
  BeautifulSoup. What they return (or raise) for the page at hand is the input of the
  model: the outcome of \<^verbatim>\<open>_validate_text_for_parsing\<close>, the two dates found by
  \<^verbatim>\<open>_parse_date_report\<close> (as day ordinals), the labels found by
  \<^verbatim>\<open>_get_columns_name\<close>, and the rows that \<^verbatim>\<open>_forming_days_collecion\<close>
  makes of the table rows \<^verbatim>\<open>[3:-1]\<close>.
\<close>

record page =
  validate_text :: "error option"
  date_report :: "error + int \<times> int"
  columns_name :: "error + string list"
  days_collecion :: "error + row list"

text \<open>
  Modelled from the spec: \<^verbatim>\<open>_get_date_range\<close> of \<^verbatim>\<open>parser_base\<close> is not
  among the sources. The spec has the buckets cover ``the closed date range
  [start\_date, end\_date] inclusive --- no gaps, no extras'', in range order.
\<close>

definition get_date_range :: "int \<Rightarrow> int \<Rightarrow> int list" where
  "get_date_range start_date end_date = [start_date..end_date]"

text \<open>
  Modelled from the spec: \<^verbatim>\<open>_forming_days_dict\<close> of \<^verbatim>\<open>parser_base\<close> is not
  among the sources. The spec's DayBucket is a ``mapping from calendar day-of-month
  (integer) to a list of RawRow entries belonging to that day. Built to cover every day
  in the requested date range, including days with zero source rows.'' A row belongs to
  the day its day cell reads as.
\<close>

definition rows_of_day :: "'f runtime \<Rightarrow> row list \<Rightarrow> int \<Rightarrow> row list" where
  "rows_of_day rt day_collection k =
     filter (\<lambda>r. case map_of r col_day of None \<Rightarrow> False | Some t \<Rightarrow> py_int rt t = Some k)
       day_collection"

definition forming_days_dict :: "'f runtime \<Rightarrow> int list \<Rightarrow> row list \<Rightarrow> days" where
  "forming_days_dict rt date_range day_collection =
     foldl (\<lambda>ds date. AList.update (day_of rt date)
                         (rows_of_day rt day_collection (day_of rt date)) ds)
       [] date_range"

subsection \<open>parse\<close>

definition support_group_count :: nat where
  "support_group_count = 2"

text \<open>Lines 116--122, for the group names settled on.\<close>

definition complete_and_format ::
  "'f runtime \<Rightarrow> days \<Rightarrow> string list \<Rightarrow> string list \<Rightarrow> error + 'f ServiceLevel list list" where
  "complete_and_format rt ds grp label =
     bind_res (service_lavel_data_completion rt ds (set_iter rt grp) label)
       (formating_service_level_data rt)"

definition parse :: "'f runtime \<Rightarrow> page \<Rightarrow> error + 'f ServiceLevel list list" where
  "parse rt p =
     (case validate_text p of
        Some e \<Rightarrow> Inl e
      | None \<Rightarrow>
     (case date_report p of
        Inl e \<Rightarrow> Inl e
      | Inr (start_date, end_date) \<Rightarrow>
     if start_date = end_date then Inr []
     else
     (case columns_name p of
        Inl e \<Rightarrow> Inl e
      | Inr label \<Rightarrow>
     (case days_collecion p of
        Inl e \<Rightarrow> Inl e
      | Inr day_collection \<Rightarrow>
     (let date_range = get_date_range start_date end_date;
          ds = forming_days_dict rt date_range day_collection
      in
     (case map_res (\<lambda>r. getitem r col_group) day_collection of
        Inl e \<Rightarrow> Inl e
      | Inr names \<Rightarrow>
     (let grp = py_set names in
      if length grp = 0 then Inl CantGetData
      else if 2 * length grp = support_group_count then
        (let grp' = py_set (default_group rt @ grp) in
         if length grp' \<noteq> support_group_count then Inl CantGetData
         else complete_and_format rt ds grp' label)
      else complete_and_format rt ds grp label)))))))"

section \<open>The CRM client (clamp/crm/client.py)\<close>

subsection \<open>Requests, responses and the session\<close>

type_synonym mapping = "(string \<times> string) list"

text \<open>The named tuple \<^verbatim>\<open>NaumenRequest\<close> (lines 61--76).\<close>

record NaumenRequest =
  url :: string
  headers :: mapping
  params :: mapping
  data :: mapping
  verify :: bool

text \<open>What the client reads of a \<^verbatim>\<open>requests\<close> response (line 145).\<close>

record response =
  status_code :: int
  response_text :: string

text \<open>
  The Python values that reach \<^verbatim>\<open>_get_crm_response\<close> as its argument
  \<^verbatim>\<open>request\<close>, and the values of their attributes.
\<close>

datatype pyobj =
    Str string
  | Bool bool
  | PyDict mapping
  | Request NaumenRequest
  | PyList "pyobj list"

text \<open>
  \<^verbatim>\<open>obj.name\<close>, for the attribute names the client reads. A named tuple has its
  fields as attributes; a string, a boolean, a dictionary and a list have none of these
  names.
\<close>

definition getattr :: "pyobj \<Rightarrow> string \<Rightarrow> error + pyobj" where
  "getattr obj name =
     (case obj of
        Request r \<Rightarrow>
          if name = ''url'' then Inr (Str (url r))
          else if name = ''headers'' then Inr (PyDict (headers r))
          else if name = ''params'' then Inr (PyDict (params r))
          else if name = ''data'' then Inr (PyDict (data r))
          else if name = ''verify'' then Inr (Bool (verify r))
          else Inl AttributeError
      | _ \<Rightarrow> Inl AttributeError)"

text \<open>
  The effects of the client are recorded in order: every \<^verbatim>\<open>sleep\<close> with its
  argument, every request sent through the session with its keyword arguments.
\<close>

datatype event = Slept int | Posted "pyobj list"

type_synonym world = "event list"

fun is_posted :: "event \<Rightarrow> bool" where
  "is_posted (Posted args) = True"
| "is_posted (Slept secs) = False"

text \<open>\<^verbatim>\<open>time.sleep\<close> refuses a negative length.\<close>

definition sleep :: "int \<Rightarrow> world \<Rightarrow> (error + unit) \<times> world" where
  "sleep secs w = (if secs < 0 then (Inl ValueError, w) else (Inr (), w @ [Slept secs]))"

text \<open>
  \<^verbatim>\<open>ActiveConnect\<close>: the session with the remote system. Its answer to a request
  (a response, or an exception of the transport) may depend on how many requests were
  sent before, since the listing page changes while a report is being built.
\<close>

type_synonym ActiveConnect = "nat \<Rightarrow> pyobj list \<Rightarrow> error + response"

definition session_post :: "ActiveConnect \<Rightarrow> pyobj list \<Rightarrow> world \<Rightarrow> (error + response) \<times> world" where
  "session_post crm args w = (crm (length (filter is_posted w)) args, w @ [Posted args])"

subsection \<open>\_get\_crm\_response\<close>

text \<open>Lines 145--148: what is made of the response once there is one.\<close>

definition checked_text :: "response \<Rightarrow> error + string" where
  "checked_text r =
     (if status_code r \<noteq> 200 \<or> response_text r = [] then Inl ConnectionsFailed
      else Inr (response_text r))"

text \<open>
  Lines 141--144: the keyword arguments of the call, evaluated in the order written
  before anything is sent. The second of them reads the attribute \<^verbatim>\<open>header\<close>.
\<close>

definition request_arguments :: "pyobj \<Rightarrow> error + pyobj list" where
  "request_arguments request =
     bind_res (getattr request ''url'') (\<lambda>a1.
     bind_res (getattr request ''header'') (\<lambda>a2.
     bind_res (getattr request ''params'') (\<lambda>a3.
     bind_res (getattr request ''data'') (\<lambda>a4.
     bind_res (getattr request ''verify'') (\<lambda>a5. Inr [a1, a2, a3, a4, a5])))))"

text \<open>Lines 141--148 from the call on: the request is sent and the response checked.\<close>

definition post_and_check :: "ActiveConnect \<Rightarrow> pyobj list \<Rightarrow> world \<Rightarrow> (error + string) \<times> world" where
  "post_and_check crm args w =
     (case session_post crm args w of
        (Inl e, w') \<Rightarrow> (Inl e, w')
      | (Inr r, w') \<Rightarrow> (checked_text r, w'))"

definition get_crm_response :: "ActiveConnect \<Rightarrow> pyobj \<Rightarrow> world \<Rightarrow> (error + string) \<times> world" where
  "get_crm_response crm request w =
     (case request_arguments request of
        Inl e \<Rightarrow> (Inl e, w)
      | Inr args \<Rightarrow> post_and_check crm args w)"

subsection \<open>\_find\_report\_uuid\<close>

text \<open>
  The inner function \<^verbatim>\<open>_searching\<close> (lines 335--358). It is written over the
  function that fetches the listing page and the function that reads the entries named
  \<^verbatim>\<open>report_name\<close> off a page (\<^verbatim>\<open>parse_naumen_page\<close>, which is not among the
  sources); \<^verbatim>\<open>_find_report_uuid\<close> below passes \<^verbatim>\<open>_get_crm_response\<close> for the
  first. Python's limit on nested calls (about a thousand) is not part of the model,
  which therefore stands for budgets well below it.
\<close>

function searching ::
  "(pyobj \<Rightarrow> world \<Rightarrow> (error + string) \<times> world) \<Rightarrow> (string \<Rightarrow> error + string list) \<Rightarrow>
   int \<Rightarrow> int \<Rightarrow> pyobj \<Rightarrow> world \<Rightarrow> (error + string list) \<times> world"
where
  "searching fetch parse_page delay_attems num_attems search_request w =
     (case sleep delay_attems w of
        (Inl e, w1) \<Rightarrow> (Inl e, w1)
      | (Inr u, w1) \<Rightarrow>
     (case fetch search_request w1 of
        (Inl e, w2) \<Rightarrow> (Inl e, w2)
      | (Inr page_text, w2) \<Rightarrow>
     (case parse_page page_text of
        Inl e \<Rightarrow> (Inl e, w2)
      | Inr parsed_collection \<Rightarrow>
          if parsed_collection = [] then
            (if num_attems \<ge> 1 then
               searching fetch parse_page delay_attems (num_attems - 1) search_request w2
             else (Inl CantGetData, w2))
          else (Inr parsed_collection, w2))))"
  by pat_completeness auto
termination
  by (relation "measure (\<lambda>(fetch, parse_page, delay_attems, num_attems, rest). nat num_attems)") auto

text \<open>Lines 360--364: the search, then the check that exactly one entry was found.\<close>

definition locate ::
  "(pyobj \<Rightarrow> world \<Rightarrow> (error + string) \<times> world) \<Rightarrow> (string \<Rightarrow> error + string list) \<Rightarrow>
   int \<Rightarrow> int \<Rightarrow> pyobj \<Rightarrow> world \<Rightarrow> (error + string) \<times> world" where
  "locate fetch parse_page delay_attems num_attems search_request w =
     (case searching fetch parse_page delay_attems num_attems search_request w of
        (Inl e, w') \<Rightarrow> (Inl e, w')
      | (Inr parsed_collection, w') \<Rightarrow>
          if length parsed_collection \<noteq> 1 then (Inl CantGetData, w')
          else (Inr (hd parsed_collection), w'))"

text \<open>
  \<^verbatim>\<open>_find_report_uuid\<close> with \<^verbatim>\<open>params\<close> of its annotated type
  \<^verbatim>\<open>tuple[NaumenRequest, str, int, int]\<close>. Line 333 unpacks it with a starred
  target, which binds \<^verbatim>\<open>search_request\<close> to the list of the leading items.
\<close>

definition find_report_uuid ::
  "ActiveConnect \<Rightarrow> (string \<Rightarrow> string \<Rightarrow> error + string list) \<Rightarrow>
   NaumenRequest \<times> string \<times> int \<times> int \<Rightarrow> world \<Rightarrow> (error + string) \<times> world" where
  "find_report_uuid crm parse_naumen_page params_tuple w =
     (case params_tuple of (request, report_name, delay_attems, num_attems) \<Rightarrow>
        locate (get_crm_response crm) (\<lambda>page_text. parse_naumen_page page_text report_name)
          delay_attems num_attems (PyList [Request request]) w)"

section \<open>A concrete environment for worked examples\<close>

text \<open>
  Floats as the expressions that compute them, decimal numerals for \<^verbatim>\<open>int\<close> and
  \<^verbatim>\<open>str\<close>, a set iterated in the order kept, and the calendar of May 2022 (the
  ordinal of 2022-05-01 is 738276). The readers below take plain decimal text only;
  they stand in for Python's \<^verbatim>\<open>int\<close> and \<^verbatim>\<open>float\<close> on the cell texts of
  the examples, where both agree, and no general result depends on them.
\<close>

datatype float_term =
    FloatOf string
  | FloatZero
  | TrueDiv int int
  | Times float_term int
  | Rounded float_term int

definition digit_value :: "char \<Rightarrow> nat option" where
  "digit_value c = map_of (zip ''0123456789'' [0, 1, 2, 3, 4, 5, 6, 7, 8, 9]) c"

fun read_digits :: "nat \<Rightarrow> string \<Rightarrow> nat option" where
  "read_digits acc [] = Some acc"
| "read_digits acc (c # cs) =
     (case digit_value c of None \<Rightarrow> None | Some v \<Rightarrow> read_digits (10 * acc + v) cs)"

definition read_int :: "string \<Rightarrow> int option" where
  "read_int s =
     (case s of
        [] \<Rightarrow> None
      | c # cs \<Rightarrow>
          if c = CHR ''-'' then
            (if cs = [] then None else map_option (\<lambda>n. - int n) (read_digits 0 cs))
          else map_option int (read_digits 0 s))"

fun show_nat :: "nat \<Rightarrow> string" where
  "show_nat n =
     (if n < 10 then [''0123456789'' ! n] else show_nat (n div 10) @ [''0123456789'' ! (n mod 10)])"

definition show_int :: "int \<Rightarrow> string" where
  "show_int i = (if i < 0 then CHR ''-'' # show_nat (nat (- i)) else show_nat (nat i))"

definition read_float :: "string \<Rightarrow> float_term option" where
  "read_float s =
     (if s \<noteq> [] \<and> list_all (\<lambda>c. c \<in> set ''0123456789.'') s then Some (FloatOf s) else None)"

definition example_runtime :: "float_term runtime" where
  "example_runtime =
     \<lparr>py_int = read_int, py_str = show_int, py_float = read_float, float_zero = FloatZero,
      true_div = (\<lambda>a b. Some (TrueDiv a b)), float_mul = Times, py_round = Rounded,
      set_iter = (\<lambda>xs. xs), day_of = (\<lambda>d. d - 738275), today = 20,
      default_group = [''A'', ''B'']\<rparr>"

text \<open>
  A report from 5 May to 6 May 2022 whose table has one row: group A on day 5, ten
  issues, eight of them taken in time.
\<close>

definition example_page :: page where
  "example_page =
     \<lparr>validate_text = None, date_report = Inr (738280, 738281),
      columns_name = Inr sl_columns,
      days_collecion = Inr [sl_row ''5'' ''A'' ''10'' ''7'' ''8'' ''2'' ''80.0'']\<rparr>"

text \<open>The same page with both dates 5 May 2022.\<close>

definition one_day_page :: page where
  "one_day_page = example_page\<lparr>date_report := Inr (738280, 738280)\<rparr>"

text \<open>
  A request of the declared type, a session that answers every request with status 200
  and the given page, and a stand-in for \<^verbatim>\<open>parse_naumen_page\<close> that finds no
  entry, one entry or two entries according to the page.
\<close>

definition example_request :: NaumenRequest where
  "example_request =
     \<lparr>url = ''https://crm.example/report'', headers = [(''Accept'', ''text/html'')],
      params = [], data = [(''title'', ''ID1234567'')], verify = False\<rparr>"

text \<open>The keyword arguments that the fields of \<open>example_request\<close> make.\<close>

definition example_arguments :: "pyobj list" where
  "example_arguments =
     [Str (url example_request), PyDict (headers example_request),
      PyDict (params example_request), PyDict (data example_request),
      Bool (verify example_request)]"

definition session_answering :: "string \<Rightarrow> ActiveConnect" where
  "session_answering page = (\<lambda>n args. Inr \<lparr>status_code = 200, response_text = page\<rparr>)"

definition example_parse_naumen_page :: "string \<Rightarrow> string \<Rightarrow> error + string list" where
  "example_parse_naumen_page page_text report_name =
     (if page_text = ''listing with two entries'' then Inr [''uuid-1'', ''uuid-2'']
      else if page_text = ''listing with one entry'' then Inr [''uuid-1'']
      else Inr [])"

text \<open>The same page with an empty table.\<close>

definition no_rows_page :: page where
  "no_rows_page = example_page\<lparr>days_collecion := Inr []\<rparr>"

text \<open>The same two days with a table that names three groups.\<close>

definition three_groups_page :: page where
  "three_groups_page =
     \<lparr>validate_text = None, date_report = Inr (738280, 738281),
      columns_name = Inr sl_columns,
      days_collecion = Inr [sl_row ''5'' ''A'' ''10'' ''7'' ''8'' ''2'' ''80.0'',
                           sl_row ''5'' ''B'' ''4'' ''4'' ''1'' ''3'' ''25.0'',
                           sl_row ''6'' ''C'' ''1'' ''1'' ''1'' ''0'' ''100.0'']\<rparr>"

text \<open>
  A report from 1 February to 1 March 2022 (ordinals 738187 and 738215), with the
  calendar of these two months.
\<close>

definition february_runtime :: "float_term runtime" where
  "february_runtime =
     example_runtime\<lparr>day_of := (\<lambda>d. if d < 738215 then d - 738186 else d - 738214)\<rparr>"

definition february_page :: page where
  "february_page =
     \<lparr>validate_text = None, date_report = Inr (738187, 738215),
      columns_name = Inr sl_columns,
      days_collecion = Inr [sl_row ''1'' ''A'' ''10'' ''7'' ''8'' ''2'' ''80.0'']\<rparr>"

text \<open>
  The calendar of April and May 2022 (the ordinal of 2022-04-01 is 738246) with the
  clock at 4 May, and the buckets of a report for 25 and 26 April (ordinals 738270 and
  738271): day 25 has no row, day 26 has a row for group A.
\<close>

definition april_runtime :: "float_term runtime" where
  "april_runtime =
     example_runtime\<lparr>day_of := (\<lambda>d. if d < 738276 then d - 738245 else d - 738275),
                     today := 4\<rparr>"

definition april_days :: days where
  "april_days = [(25, []), (26, [sl_row ''26'' ''A'' ''10'' ''7'' ''8'' ''2'' ''80.0''])]"

text \<open>The same calendar with the clock at 30 April, and the bucket of 2 May, without rows.\<close>

definition april_end_runtime :: "float_term runtime" where
  "april_end_runtime = april_runtime\<lparr>today := 30\<rparr>"

definition may_days :: days where
  "may_days = [(2, [])]"

text \<open>What \<^verbatim>\<open>parse\<close> returns for \<open>example_page\<close> (checked below).\<close>

definition example_records :: "float_term ServiceLevel list list" where
  "example_records =
     [[\<lparr>day = DayText ''5'', group_name = ''A'', total_issues = 10, total_primary_issues = 7,
        num_issues_before_deadline = 8, num_issues_after_deadline = 2,
        service_level = FloatOf ''80.0''\<rparr>,
       \<lparr>day = DayText ''5'', group_name = ''B'', total_issues = 0, total_primary_issues = 0,
        num_issues_before_deadline = 0, num_issues_after_deadline = 0,
        service_level = FloatOf ''100.0''\<rparr>,
       \<lparr>day = DayText ''5'', group_name = total_group, total_issues = 10,
        total_primary_issues = 7, num_issues_before_deadline = 8,
        num_issues_after_deadline = 2,
        service_level = Rounded (Times (TrueDiv 8 10) 100) 1\<rparr>],
      [\<lparr>day = DayText ''6'', group_name = ''B'', total_issues = 0, total_primary_issues = 0,
        num_issues_before_deadline = 0, num_issues_after_deadline = 0,
        service_level = FloatOf ''100.0''\<rparr>,
       \<lparr>day = DayText ''6'', group_name = ''A'', total_issues = 0, total_primary_issues = 0,
        num_issues_before_deadline = 0, num_issues_after_deadline = 0,
        service_level = FloatOf ''100.0''\<rparr>,
       \<lparr>day = DayText ''6'', group_name = total_group, total_issues = 0,
        total_primary_issues = 0, num_issues_before_deadline = 0,
        num_issues_after_deadline = 0, service_level = FloatZero\<rparr>]]"

text \<open>
  Day buckets with gaps: day 5 has a row for group A only, day 25 has no row. With the
  clock of \<open>example_runtime\<close> (the 20th), day 5 has passed and day 25 has not.
\<close>

definition gappy_days :: days where
  "gappy_days = [(5, [sl_row ''5'' ''A'' ''10'' ''7'' ''8'' ''2'' ''80.0'']), (25, [])]"

definition gappy_days_completed :: days where
  "gappy_days_completed =
     [(5, [sl_row ''5'' ''A'' ''10'' ''7'' ''8'' ''2'' ''80.0'',
           sl_row ''5'' ''B'' ''0'' ''0'' ''0'' ''0'' ''100.0'']),
      (25, [sl_row ''25'' ''B'' ''0'' ''0'' ''0'' ''0'' ''0.0'',
            sl_row ''25'' ''A'' ''0'' ''0'' ''0'' ''0'' ''0.0''])]"

text \<open>A bucket that holds one row for each of the groups A and B.\<close>

definition full_days :: days where
  "full_days =
     [(5, [sl_row ''5'' ''A'' ''10'' ''7'' ''8'' ''2'' ''80.0'',
           sl_row ''5'' ''B'' ''4'' ''4'' ''1'' ''3'' ''25.0''])]"

section \<open>Results about the service-level parser\<close>

subsection \<open>Auxiliary facts\<close>

lemma bind_res_Inr:
  "bind_res m f = Inr y \<longleftrightarrow> (\<exists>x. m = Inr x \<and> f x = Inr y)"
  by (cases m) (simp_all add: bind_res_def)

lemma map_res_length: "map_res f xs = Inr ys \<Longrightarrow> length ys = length xs"
  by (induction xs arbitrary: ys) (auto split: sum.splits)

lemma map_res_nth:
  "map_res f xs = Inr ys \<Longrightarrow> i < length xs \<Longrightarrow> f (xs ! i) = Inr (ys ! i)"
proof (induction xs arbitrary: ys i)
  case Nil
  then show ?case by simp
next
  case (Cons x xs)
  then show ?case by (cases i) (auto split: sum.splits)
qed

lemma map_res_set:
  "map_res f xs = Inr ys \<Longrightarrow> y \<in> set ys \<Longrightarrow> \<exists>x \<in> set xs. f x = Inr y"
  by (induction xs arbitrary: ys) (auto split: sum.splits)

lemma map_res_map:
  "(\<And>x. x \<in> set xs \<Longrightarrow> f x = Inr (g x)) \<Longrightarrow> map_res f xs = Inr (map g xs)"
  by (induction xs) simp_all

lemmas col_defs = col_day_def col_group_def col_total_issues_def col_total_primary_issues_def
  col_before_deadline_def col_after_deadline_def col_service_level_def

lemma update_fresh: "k \<notin> fst ` set al \<Longrightarrow> AList.update k v al = al @ [(k, v)]"
  by (induction al) auto

lemma foldl_update_distinct:
  "distinct (map fst (acc @ ps)) \<Longrightarrow>
   foldl (\<lambda>d (k, v). AList.update k v d) acc ps = acc @ ps"
proof (induction ps arbitrary: acc)
  case Nil
  then show ?case by simp
next
  case (Cons p ps)
  obtain k v where p: "p = (k, v)" by (cases p)
  from Cons.prems p have fresh: "k \<notin> fst ` set acc" by auto
  from Cons.prems p have "distinct (map fst ((acc @ [(k, v)]) @ ps))" by auto
  from Cons.IH [OF this] show ?case by (simp add: p update_fresh [OF fresh])
qed

lemma py_dict_distinct: "distinct (map fst ps) \<Longrightarrow> py_dict ps = ps"
  using foldl_update_distinct [of "[]" ps] by (simp add: py_dict_def)

lemma distinct_sl_columns: "distinct sl_columns"
  by (simp add: sl_columns_def col_defs)

lemma synthesized_row_sl_columns:
  "synthesized_row rt sl_columns d g sl = sl_row (py_str rt d) g ''0'' ''0'' ''0'' ''0'' sl"
proof -
  have "distinct (map fst (zip sl_columns [py_str rt d, g, ''0'', ''0'', ''0'', ''0'', sl]))"
    using distinct_sl_columns by (simp add: sl_columns_def)
  then show ?thesis by (simp add: synthesized_row_def sl_row_def py_dict_distinct)
qed

lemma sl_row_cells:
  "map_of (sl_row d g ti tp nb na sl) col_day = Some d"
  "map_of (sl_row d g ti tp nb na sl) col_group = Some g"
  "map_of (sl_row d g ti tp nb na sl) col_total_issues = Some ti"
  "map_of (sl_row d g ti tp nb na sl) col_total_primary_issues = Some tp"
  "map_of (sl_row d g ti tp nb na sl) col_before_deadline = Some nb"
  "map_of (sl_row d g ti tp nb na sl) col_after_deadline = Some na"
  "map_of (sl_row d g ti tp nb na sl) col_service_level = Some sl"
  by (simp_all add: sl_row_def sl_columns_def col_defs)

lemma getitem_Inr: "getitem r k = Inr v \<longleftrightarrow> map_of r k = Some v"
  by (simp add: getitem_def split: option.splits)

lemma map_res_getitem:
  "map_res (\<lambda>r. getitem r k) rows = Inr names \<Longrightarrow> map (\<lambda>r. map_of r k) rows = map Some names"
  by (induction rows arbitrary: names) (auto simp: getitem_Inr split: sum.splits)

lemma complete_day_result:
  assumes "complete_day rt groups lable (d, content) = Inr entry'"
  shows "entry' = (d, content @ map (\<lambda>g. synthesized_row rt lable d g (sl_text rt d))
           (if length content = 2 then []
            else filter (\<lambda>g. Some g \<notin> (\<lambda>r. map_of r col_group) ` set content) groups))"
proof (cases "content = []")
  case True
  with assms show ?thesis by (simp add: complete_day_def)
next
  case False
  show ?thesis
  proof (cases "length content = 2")
    case True
    with assms show ?thesis by (auto simp: complete_day_def split: if_splits)
  next
    case two: False
    from assms False two obtain day_groups where
      dg: "map_res (\<lambda>r. getitem r col_group) content = Inr day_groups" and
      e: "entry' = (d, content @ map (\<lambda>g. synthesized_row rt lable d g (sl_text rt d))
                    (filter (\<lambda>g. g \<notin> set day_groups) groups))"
      by (auto simp: complete_day_def split: sum.splits)
    from map_res_getitem [OF dg] have "(\<lambda>r. map_of r col_group) ` set content = Some ` set day_groups"
      by (metis image_set)
    then have "\<And>g. (Some g \<notin> (\<lambda>r. map_of r col_group) ` set content) = (g \<notin> set day_groups)"
      by auto
    with e two show ?thesis by simp
  qed
qed

lemma completion_nth:
  assumes "service_lavel_data_completion rt ds groups lable = Inr ds'" and "i < length ds"
  shows "ds' ! i = (fst (ds ! i), snd (ds ! i) @
           map (\<lambda>g. synthesized_row rt lable (fst (ds ! i)) g (sl_text rt (fst (ds ! i))))
             (if length (snd (ds ! i)) = 2 then []
              else filter (\<lambda>g. Some g \<notin> (\<lambda>r. map_of r col_group) ` set (snd (ds ! i))) groups))"
proof -
  from assms have "complete_day rt groups lable (ds ! i) = Inr (ds' ! i)"
    unfolding service_lavel_data_completion_def by (rule map_res_nth)
  then have "complete_day rt groups lable (fst (ds ! i), snd (ds ! i)) = Inr (ds' ! i)"
    by simp
  then show ?thesis by (rule complete_day_result)
qed

lemma completion_length:
  "service_lavel_data_completion rt ds groups lable = Inr ds' \<Longrightarrow> length ds' = length ds"
  unfolding service_lavel_data_completion_def by (rule map_res_length)

lemma complete_day_complete:
  assumes "mset (map (\<lambda>r. map_of r col_group) content) = mset (map Some groups)"
  shows "complete_day rt groups lable (d, content) = Inr (d, content)"
proof -
  from assms have sets: "(\<lambda>r. map_of r col_group) ` set content = Some ` set groups"
    by (metis image_set set_mset_mset)
  from assms have len: "length content = length groups"
    by (metis length_map size_mset)
  have "map_res (\<lambda>r. getitem r col_group) content =
        Inr (map (\<lambda>r. the (map_of r col_group)) content)"
  proof (rule map_res_map)
    fix r assume "r \<in> set content"
    with sets obtain g where "map_of r col_group = Some g" by blast
    then show "getitem r col_group = Inr (the (map_of r col_group))"
      by (simp add: getitem_Inr)
  qed
  moreover have "set (map (\<lambda>r. the (map_of r col_group)) content) = set groups"
  proof -
    have "set (map (\<lambda>r. the (map_of r col_group)) content) =
          the ` ((\<lambda>r. map_of r col_group) ` set content)"
      by (simp add: image_image)
    also have "\<dots> = set groups" by (simp add: sets image_image)
    finally show ?thesis .
  qed
  ultimately show ?thesis
    using len by (auto simp: complete_day_def)
qed

lemma format_rows_sums:
  assumes "format_rows rt rows acc = Inr acc'"
  shows "\<exists>recs. map_res (format_row rt) rows = Inr recs \<and>
    day_records acc' = day_records acc @ recs \<and>
    acc_day acc' = (if recs = [] then acc_day acc else day (last recs)) \<and>
    gen_total_issues acc' = gen_total_issues acc + sum_list (map total_issues recs) \<and>
    gen_total_primary_issues acc' =
      gen_total_primary_issues acc + sum_list (map total_primary_issues recs) \<and>
    gen_num_issues_before_deadline acc' =
      gen_num_issues_before_deadline acc + sum_list (map num_issues_before_deadline recs) \<and>
    gen_num_issues_after_deadline acc' =
      gen_num_issues_after_deadline acc + sum_list (map num_issues_after_deadline recs)"
  using assms
proof (induction rows arbitrary: acc)
  case Nil
  then show ?case by simp
next
  case (Cons data rest)
  from Cons.prems obtain sl where sl: "format_row rt data = Inr sl"
    by (auto split: sum.splits)
  let ?acc1 = "\<lparr>acc_day = day sl,
             day_records = day_records acc @ [sl],
             gen_total_issues = gen_total_issues acc + total_issues sl,
             gen_total_primary_issues = gen_total_primary_issues acc + total_primary_issues sl,
             gen_num_issues_before_deadline =
               gen_num_issues_before_deadline acc + num_issues_before_deadline sl,
             gen_num_issues_after_deadline =
               gen_num_issues_after_deadline acc + num_issues_after_deadline sl\<rparr>"
  from Cons.prems sl have "format_rows rt rest ?acc1 = Inr acc'" by simp
  from Cons.IH [OF this] obtain recs where
    r: "map_res (format_row rt) rest = Inr recs"
       "day_records acc' = day_records ?acc1 @ recs"
       "acc_day acc' = (if recs = [] then acc_day ?acc1 else day (last recs))"
       "gen_total_issues acc' = gen_total_issues ?acc1 + sum_list (map total_issues recs)"
       "gen_total_primary_issues acc' =
          gen_total_primary_issues ?acc1 + sum_list (map total_primary_issues recs)"
       "gen_num_issues_before_deadline acc' =
          gen_num_issues_before_deadline ?acc1 + sum_list (map num_issues_before_deadline recs)"
       "gen_num_issues_after_deadline acc' =
          gen_num_issues_after_deadline ?acc1 + sum_list (map num_issues_after_deadline recs)"
    by blast
  show ?case
    by (rule exI [of _ "sl # recs"]) (use sl r in simp)
qed

lemma format_day_total:
  assumes "format_day rt (d, rows) = Inr dl"
  shows "\<exists>recs tot. dl = recs @ [tot] \<and> map_res (format_row rt) rows = Inr recs \<and>
    group_name tot = total_group \<and>
    day tot = (if recs = [] then DayKey d else day (last recs)) \<and>
    total_issues tot = sum_list (map total_issues recs) \<and>
    total_primary_issues tot = sum_list (map total_primary_issues recs) \<and>
    num_issues_before_deadline tot = sum_list (map num_issues_before_deadline recs) \<and>
    num_issues_after_deadline tot = sum_list (map num_issues_after_deadline recs) \<and>
    gen_service_level rt (num_issues_before_deadline tot) (total_issues tot) =
      Inr (service_level tot)"
proof -
  let ?acc0 = "\<lparr>acc_day = DayKey d, day_records = [], gen_total_issues = 0,
              gen_total_primary_issues = 0, gen_num_issues_before_deadline = 0,
              gen_num_issues_after_deadline = 0\<rparr> :: 'a day_acc"
  from assms obtain acc gsl where
    acc: "format_rows rt rows ?acc0 = Inr acc" and
    gsl: "gen_service_level rt (gen_num_issues_before_deadline acc) (gen_total_issues acc) = Inr gsl" and
    dl: "dl = day_records acc @
                    [\<lparr>day = acc_day acc, group_name = total_group,
                      total_issues = gen_total_issues acc,
                      total_primary_issues = gen_total_primary_issues acc,
                      num_issues_before_deadline = gen_num_issues_before_deadline acc,
                      num_issues_after_deadline = gen_num_issues_after_deadline acc,
                      service_level = gsl\<rparr>]"
    by (auto simp: format_day_def bind_res_Inr)
  from format_rows_sums [OF acc] obtain recs where
    r: "map_res (format_row rt) rows = Inr recs"
       "day_records acc = recs"
       "acc_day acc = (if recs = [] then DayKey d else day (last recs))"
       "gen_total_issues acc = sum_list (map total_issues recs)"
       "gen_total_primary_issues acc = sum_list (map total_primary_issues recs)"
       "gen_num_issues_before_deadline acc = sum_list (map num_issues_before_deadline recs)"
       "gen_num_issues_after_deadline acc = sum_list (map num_issues_after_deadline recs)"
    by auto
  show ?thesis
    apply (rule exI [of _ recs])
    apply (rule exI [of _ "last dl"])
    using dl r gsl by simp
qed

lemma formating_lists:
  assumes "formating_service_level_data rt ds = Inr coll" and "dl \<in> set coll"
  shows "\<exists>d rows. (d, rows) \<in> set ds \<and> format_day rt (d, rows) = Inr dl"
proof -
  from assms obtain entry where e: "entry \<in> set ds" "format_day rt entry = Inr dl"
    unfolding formating_service_level_data_def by (blast dest: map_res_set)
  obtain d rows where "entry = (d, rows)" by (cases entry)
  with e show ?thesis by auto
qed

lemma complete_and_format_lists:
  assumes "complete_and_format rt ds grp label = Inr coll" and "dl \<in> set coll"
  shows "\<exists>d rows. format_day rt (d, rows) = Inr dl"
  using assms unfolding complete_and_format_def bind_res_Inr
  by (blast dest: formating_lists)

lemma parse_lists:
  assumes "parse rt p = Inr coll" and "dl \<in> set coll"
  shows "\<exists>d rows. format_day rt (d, rows) = Inr dl"
  using assms unfolding parse_def
  by (auto simp: Let_def split: option.splits sum.splits if_splits
      dest: complete_and_format_lists)

lemma length_py_set: "length (py_set xs) = card (set xs)"
  by (simp add: py_set_def length_remdups_card_conv)

lemma set_py_set: "set (py_set xs) = set xs"
  by (simp add: py_set_def)

lemma parse_after_rows:
  assumes "validate_text p = None"
    and "date_report p = Inr (start_date, end_date)"
    and "start_date \<noteq> end_date"
    and "columns_name p = Inr label"
    and "days_collecion p = Inr day_collection"
    and "map_res (\<lambda>r. getitem r col_group) day_collection = Inr names"
  shows "parse rt p =
     (if card (set names) = 0 then Inl CantGetData
      else if 2 * card (set names) = support_group_count then
        (if card (set (default_group rt) \<union> set names) \<noteq> support_group_count
         then Inl CantGetData
         else complete_and_format rt
            (forming_days_dict rt (get_date_range start_date end_date) day_collection)
            (py_set (default_group rt @ py_set names)) label)
      else complete_and_format rt
            (forming_days_dict rt (get_date_range start_date end_date) day_collection)
            (py_set names) label)"
proof -
  have len: "length (py_set names) = card (set names)"
    "length (py_set (default_group rt @ py_set names)) =
       card (set (default_group rt) \<union> set names)"
    by (simp_all add: length_py_set set_py_set)
  from assms show ?thesis
    unfolding parse_def Let_def len [symmetric] by simp
qed

lemma parse_rows_have_groups:
  assumes "validate_text p = None"
    and "date_report p = Inr (start_date, end_date)"
    and "start_date \<noteq> end_date"
    and "columns_name p = Inr label"
    and "days_collecion p = Inr day_collection"
    and "parse rt p = Inr coll"
  shows "\<exists>names. map_res (\<lambda>r. getitem r col_group) day_collection = Inr names"
  using assms unfolding parse_def by (auto simp: Let_def split: sum.splits)

lemma foldl_days_distinct:
  "distinct (map fst acc @ map f dates) \<Longrightarrow>
   foldl (\<lambda>ds date. AList.update (f date) (g (f date)) ds) acc dates =
   acc @ map (\<lambda>date. (f date, g (f date))) dates"
proof (induction dates arbitrary: acc)
  case Nil
  then show ?case by simp
next
  case (Cons date dates)
  from Cons.prems have fresh: "f date \<notin> fst ` set acc" by auto
  from Cons.prems have "distinct (map fst (acc @ [(f date, g (f date))]) @ map f dates)"
    by auto
  from Cons.IH [OF this] show ?case by (simp add: update_fresh [OF fresh])
qed

lemma forming_days_dict_distinct:
  assumes "distinct (map (day_of rt) dates)"
  shows "forming_days_dict rt dates day_collection =
    map (\<lambda>date. (day_of rt date, rows_of_day rt day_collection (day_of rt date))) dates"
  using foldl_days_distinct [of "[]" "day_of rt" dates "rows_of_day rt day_collection"] assms
  by (simp add: forming_days_dict_def)

lemma format_row_fields:
  assumes "format_row rt r = Inr rec"
  shows "\<exists>t. day rec = DayText t \<and> map_of r col_day = Some t \<and>
    map_of r col_group = Some (group_name rec)"
  using assms by (auto simp: format_row_def bind_res_Inr getitem_Inr)

lemma map_res_format_row_fields:
  assumes "map_res (format_row rt) rows = Inr recs"
  shows "map (\<lambda>r. map_of r col_group) rows = map (\<lambda>rec. Some (group_name rec)) recs \<and>
    (\<forall>rec \<in> set recs. \<exists>r \<in> set rows. \<exists>t. day rec = DayText t \<and> map_of r col_day = Some t)"
  using assms
proof (induction rows arbitrary: recs)
  case Nil
  then show ?case by simp
next
  case (Cons r rows)
  from Cons.prems obtain rec recs' where
    rec: "format_row rt r = Inr rec" and recs': "map_res (format_row rt) rows = Inr recs'" and
    recs: "recs = rec # recs'"
    by (auto split: sum.splits)
  from format_row_fields [OF rec] Cons.IH [OF recs'] recs show ?case by auto
qed

text \<open>The cells of a completed bucket, for two known groups.\<close>

lemma completed_cells:
  fixes cells :: "string option list"
  assumes "distinct groups" and "length groups = 2"
    and "distinct cells" and "set cells \<subseteq> Some ` set groups"
  defines "added \<equiv> (if length cells = 2 then []
                     else filter (\<lambda>g. Some g \<notin> set cells) groups)"
  shows "distinct (cells @ map Some added) \<and> set (cells @ map Some added) = Some ` set groups"
proof (cases "length cells = 2")
  case True
  have "card (set cells) = 2" using True assms(3) by (simp add: distinct_card)
  moreover have "card (Some ` set groups) = 2"
    using assms(1,2) by (simp add: card_image distinct_card)
  ultimately have "set cells = Some ` set groups"
    using assms(4) by (metis card_subset_eq finite_imageI finite_set)
  with True assms(3) show ?thesis by (simp add: added_def)
next
  case False
  then have a: "added = filter (\<lambda>g. Some g \<notin> set cells) groups" by (simp add: added_def)
  have "distinct (map Some added)"
    unfolding a using assms(1) by (simp add: distinct_map)
  moreover have "set cells \<inter> set (map Some added) = {}"
    unfolding a by auto
  moreover have "set cells \<union> set (map Some added) = Some ` set groups"
    unfolding a using assms(4) by auto
  ultimately show ?thesis using assms(3) by simp
qed

lemma complete_and_format_grid:
  assumes caf: "complete_and_format rt ds G sl_columns = Inr coll"
    and perm: "mset (set_iter rt G) = mset G"
    and dG: "distinct G" and lG: "length G = 2"
    and bucket: "\<forall>entry \<in> set ds.
      distinct (map (\<lambda>r. map_of r col_group) (snd entry)) \<and>
      (\<lambda>r. map_of r col_group) ` set (snd entry) \<subseteq> Some ` set G \<and>
      (\<forall>r \<in> set (snd entry). \<exists>t. map_of r col_day = Some t \<and> py_int rt t = Some (fst entry)) \<and>
      py_int rt (py_str rt (fst entry)) = Some (fst entry)"
    and i: "i < length ds"
  shows "length coll = length ds \<and> length (coll ! i) = 3 \<and>
    distinct (map group_name (butlast (coll ! i))) \<and>
    set (map group_name (butlast (coll ! i))) = set G \<and>
    group_name (last (coll ! i)) = total_group \<and>
    (\<forall>rec \<in> set (coll ! i). day_number rt (day rec) = Some (fst (ds ! i)))"
proof -
  define groups where "groups = set_iter rt G"
  from perm dG lG have g: "distinct groups" "length groups = 2" "set groups = set G"
    unfolding groups_def
    by (metis mset_eq_imp_distinct_iff, metis size_mset, metis set_mset_mset)
  from caf obtain ds' where
    comp: "service_lavel_data_completion rt ds groups sl_columns = Inr ds'" and
    fmt: "formating_service_level_data rt ds' = Inr coll"
    unfolding complete_and_format_def bind_res_Inr groups_def by blast
  have len': "length ds' = length ds" using comp by (rule completion_length)
  have len: "length coll = length ds"
    using fmt len' unfolding formating_service_level_data_def by (simp add: map_res_length)
  define k where "k = fst (ds ! i)"
  define content where "content = snd (ds ! i)"
  define cells where "cells = map (\<lambda>r. map_of r col_group) content"
  define added where "added = (if length cells = 2 then []
                     else filter (\<lambda>g. Some g \<notin> set cells) groups)"
  define content' where
    "content' = content @ map (\<lambda>g. synthesized_row rt sl_columns k g (sl_text rt k)) added"
  from i have mem: "ds ! i \<in> set ds" by simp
  from bucket [rule_format, OF mem] have
    b1: "distinct cells" and
    b2: "set cells \<subseteq> Some ` set groups" and
    b3: "\<forall>r \<in> set content. \<exists>t. map_of r col_day = Some t \<and> py_int rt t = Some k" and
    b4: "py_int rt (py_str rt k) = Some k"
    unfolding cells_def content_def k_def g(3) by simp_all
  have entry': "ds' ! i = (k, content')"
    using completion_nth [OF comp i]
    unfolding content'_def added_def cells_def content_def k_def by simp
  have cells': "map (\<lambda>r. map_of r col_group) content' = cells @ map Some added"
    unfolding content'_def cells_def
    by (simp add: synthesized_row_sl_columns sl_row_cells comp_def)
  from completed_cells [OF g(1) g(2) b1 b2] have
    cc: "distinct (cells @ map Some added)" "set (cells @ map Some added) = Some ` set groups"
    unfolding added_def by simp_all
  have days': "\<forall>r \<in> set content'. \<exists>t. map_of r col_day = Some t \<and> py_int rt t = Some k"
    using b3 b4 unfolding content'_def
    by (auto simp: synthesized_row_sl_columns sl_row_cells)
  from fmt i len' have "format_day rt (ds' ! i) = Inr (coll ! i)"
    unfolding formating_service_level_data_def by (simp add: map_res_nth)
  then have "format_day rt (k, content') = Inr (coll ! i)" by (simp add: entry')
  from format_day_total [OF this] obtain recs tot where
    ci: "coll ! i = recs @ [tot]" and
    recs: "map_res (format_row rt) content' = Inr recs" and
    tot: "group_name tot = total_group"
         "day tot = (if recs = [] then DayKey k else day (last recs))"
    by blast
  from map_res_format_row_fields [OF recs] have
    f1: "map (\<lambda>r. map_of r col_group) content' = map (\<lambda>rec. Some (group_name rec)) recs" and
    f2: "\<forall>rec \<in> set recs. \<exists>r \<in> set content'. \<exists>t. day rec = DayText t \<and> map_of r col_day = Some t"
    by simp_all
  have names: "map Some (map group_name recs) = cells @ map Some added"
    using f1 cells' by (simp add: comp_def)
  have d: "distinct (map group_name recs)"
    using cc(1) names by (metis distinct_map)
  have s: "set (map group_name recs) = set groups"
  proof -
    have "Some ` set (map group_name recs) = Some ` set groups"
      using cc(2) names by (metis image_set)
    then show ?thesis by (simp add: inj_image_eq_iff)
  qed
  have l: "length recs = 2"
  proof -
    have "length recs = card (set (map group_name recs))"
      using d by (metis distinct_card length_map)
    also have "\<dots> = 2" using s g(1,2) by (simp add: distinct_card)
    finally show ?thesis .
  qed
  have dr: "\<forall>rec \<in> set recs. day_number rt (day rec) = Some k"
  proof
    fix rec assume "rec \<in> set recs"
    with f2 obtain r t where "r \<in> set content'" "day rec = DayText t" "map_of r col_day = Some t"
      by blast
    with days' show "day_number rt (day rec) = Some k" by fastforce
  qed
  from l have ne: "recs \<noteq> []" by auto
  then have "last recs \<in> set recs" by simp
  with dr tot(2) ne have dt: "day_number rt (day tot) = Some k" by simp
  show ?thesis
    using len ci l d s tot(1) dr dt g(3) by (auto simp: k_def)
qed

lemma example_names:
  "map_res (\<lambda>r. getitem r col_group) [sl_row ''5'' ''A'' ''10'' ''7'' ''8'' ''2'' ''80.0''] =
   Inr [''A'']"
  by code_simp

lemma parse_example: "parse example_runtime example_page = Inr example_records"
  by code_simp

lemma completion_gappy:
  "service_lavel_data_completion example_runtime gappy_days [''B'', ''A''] sl_columns =
   Inr gappy_days_completed"
  by code_simp

subsection \<open>The early return\<close>

text \<open>
  C10. When the two dates read from the page are equal, \<^verbatim>\<open>parse\<close> returns the empty
  tuple: nothing is raised and no per-day list is produced.
\<close>

theorem parse_equal_dates_empty:
  assumes "validate_text p = None" and "date_report p = Inr (d, d)"
  shows "parse rt p = Inr []"
  using assms by (simp add: parse_def)

theorem parse_equal_dates_empty_witness:
  "validate_text one_day_page = None \<and> date_report one_day_page = Inr (738280, 738280) \<and>
   parse example_runtime one_day_page = Inr []"
  using parse_equal_dates_empty [of one_day_page 738280 example_runtime]
  by (simp add: one_day_page_def example_page_def)

subsection \<open>The aggregate record of a day\<close>

text \<open>
  C3. In every per-day list of the output the last record is the aggregate one (its
  group is the total label), and each of its four counts is the sum of that count over
  the records before it, which are the day's group records.
\<close>

theorem total_counts_are_sums:
  assumes "parse rt p = Inr coll" and "dl \<in> set coll"
  shows "dl \<noteq> [] \<and> group_name (last dl) = total_group \<and>
    total_issues (last dl) = sum_list (map total_issues (butlast dl)) \<and>
    total_primary_issues (last dl) = sum_list (map total_primary_issues (butlast dl)) \<and>
    num_issues_before_deadline (last dl) =
      sum_list (map num_issues_before_deadline (butlast dl)) \<and>
    num_issues_after_deadline (last dl) =
      sum_list (map num_issues_after_deadline (butlast dl))"
proof -
  from parse_lists [OF assms] obtain d rows where "format_day rt (d, rows) = Inr dl"
    by blast
  from format_day_total [OF this] show ?thesis by auto
qed

theorem total_counts_are_sums_witness:
  "parse example_runtime example_page = Inr example_records \<and>
   hd example_records \<in> set example_records \<and>
   total_issues (last (hd example_records)) =
     sum_list (map total_issues (butlast (hd example_records))) \<and>
   total_issues (last (hd example_records)) = 10 \<and>
   num_issues_before_deadline (last (hd example_records)) = 8"
  using total_counts_are_sums [OF parse_example, of "hd example_records"]
  by (simp add: parse_example) (simp add: example_records_def)

text \<open>
  C4. In every per-day list of the output the aggregate record comes last, after the
  records made of the day's rows, and its service level is computed from its own
  counts: \<^verbatim>\<open>round(before / total * 100, 1)\<close> when the total is not zero (so in
  particular when it is positive), and \<^verbatim>\<open>0.0\<close> when the total is zero.
\<close>

theorem total_service_level_recomputed:
  assumes "parse rt p = Inr coll" and "dl \<in> set coll"
  shows "dl \<noteq> [] \<and> group_name (last dl) = total_group \<and>
    (\<exists>rows. map_res (format_row rt) rows = Inr (butlast dl)) \<and>
    (if total_issues (last dl) = 0 then service_level (last dl) = float_zero rt
     else \<exists>q. true_div rt (num_issues_before_deadline (last dl)) (total_issues (last dl)) = Some q \<and>
            service_level (last dl) = py_round rt (float_mul rt q 100) 1)"
proof -
  from parse_lists [OF assms] obtain d rows where "format_day rt (d, rows) = Inr dl"
    by blast
  from format_day_total [OF this] obtain recs tot where
    dl: "dl = recs @ [tot]" and g: "group_name tot = total_group" and
    recs: "map_res (format_row rt) rows = Inr recs" and
    sl: "gen_service_level rt (num_issues_before_deadline tot) (total_issues tot) =
      Inr (service_level tot)"
    by blast
  from sl have "if total_issues tot = 0 then service_level tot = float_zero rt
     else \<exists>q. true_div rt (num_issues_before_deadline tot) (total_issues tot) = Some q \<and>
            service_level tot = py_round rt (float_mul rt q 100) 1"
    by (auto simp: gen_service_level_def split: if_splits option.splits)
  moreover from recs dl have "\<exists>rows. map_res (format_row rt) rows = Inr (butlast dl)"
    by auto
  ultimately show ?thesis using dl g by simp
qed

theorem total_service_level_recomputed_witness:
  "parse example_runtime example_page = Inr example_records \<and>
   hd example_records \<in> set example_records \<and>
   last example_records \<in> set example_records \<and>
   service_level (last (hd example_records)) = Rounded (Times (TrueDiv 8 10) 100) 1 \<and>
   service_level (last (last example_records)) = FloatZero"
  using total_service_level_recomputed [OF parse_example, of "hd example_records"]
    total_service_level_recomputed [OF parse_example, of "last example_records"]
  by (simp add: parse_example) (simp add: example_records_def example_runtime_def)

subsection \<open>Completion of the buckets\<close>

text \<open>
  What the completion does when the labels are the seven labels of the report: the rows
  of a day stay as they are and the synthesized rows come after them; unless the day
  holds exactly two rows, a row is made for every known group without a row on that
  day, in the order of the groups; every synthesized row has the text \<^verbatim>\<open>0\<close> in
  the four count cells, and its service-level cell follows the comparison of line 148
  between the day number and the clock's day of the month.
\<close>

lemma completion_synthesized_rows:
  assumes "service_lavel_data_completion rt ds groups sl_columns = Inr ds'"
    and "i < length ds"
  shows "\<exists>synth. ds' ! i = (fst (ds ! i), snd (ds ! i) @ synth) \<and>
    map (\<lambda>r. map_of r col_group) synth =
      map Some (if length (snd (ds ! i)) = 2 then []
                else filter (\<lambda>g. Some g \<notin> (\<lambda>r. map_of r col_group) ` set (snd (ds ! i))) groups) \<and>
    (\<forall>r \<in> set synth.
       map_of r col_total_issues = Some ''0'' \<and>
       map_of r col_total_primary_issues = Some ''0'' \<and>
       map_of r col_before_deadline = Some ''0'' \<and>
       map_of r col_after_deadline = Some ''0'' \<and>
       map_of r col_service_level =
         Some (if fst (ds ! i) \<le> today rt then ''100.0'' else ''0.0''))"
proof -
  let ?gs = "if length (snd (ds ! i)) = 2 then []
     else filter (\<lambda>g. Some g \<notin> (\<lambda>r. map_of r col_group) ` set (snd (ds ! i))) groups"
  let ?synth = "map (\<lambda>g. synthesized_row rt sl_columns (fst (ds ! i)) g (sl_text rt (fst (ds ! i)))) ?gs"
  have 1: "ds' ! i = (fst (ds ! i), snd (ds ! i) @ ?synth)"
    using completion_nth [OF assms] .
  have 2: "map (\<lambda>r. map_of r col_group) ?synth = map Some ?gs"
    by (simp add: synthesized_row_sl_columns sl_row_cells comp_def)
  have 3: "\<forall>r \<in> set ?synth.
       map_of r col_total_issues = Some ''0'' \<and>
       map_of r col_total_primary_issues = Some ''0'' \<and>
       map_of r col_before_deadline = Some ''0'' \<and>
       map_of r col_after_deadline = Some ''0'' \<and>
       map_of r col_service_level =
         Some (if fst (ds ! i) \<le> today rt then ''100.0'' else ''0.0'')"
    by (auto simp: synthesized_row_sl_columns sl_row_cells sl_text_def)
  from 1 2 3 show ?thesis by blast
qed

lemma completion_synthesized_rows_example:
  "service_lavel_data_completion example_runtime gappy_days [''B'', ''A''] sl_columns =
     Inr gappy_days_completed \<and>
   (1::nat) < length gappy_days \<and>
   (\<exists>synth. gappy_days_completed ! 1 = (fst (gappy_days ! 1), snd (gappy_days ! 1) @ synth) \<and>
      map (\<lambda>r. map_of r col_group) synth = [Some ''B'', Some ''A''] \<and>
      list_all (\<lambda>r. map_of r col_total_issues = Some ''0'' \<and>
                    map_of r col_service_level = Some ''0.0'') synth)"
proof -
  have h: "(1::nat) < length gappy_days" by (simp add: gappy_days_def)
  from completion_synthesized_rows [OF completion_gappy h]
  obtain synth where
    "gappy_days_completed ! 1 = (fst (gappy_days ! 1), snd (gappy_days ! 1) @ synth)"
    "map (\<lambda>r. map_of r col_group) synth =
      map Some (if length (snd (gappy_days ! 1)) = 2 then []
                else filter (\<lambda>g. Some g \<notin> (\<lambda>r. map_of r col_group) ` set (snd (gappy_days ! 1)))
                       [''B'', ''A''])"
    "\<forall>r \<in> set synth.
       map_of r col_total_issues = Some ''0'' \<and>
       map_of r col_service_level =
         Some (if fst (gappy_days ! 1) \<le> today example_runtime then ''100.0'' else ''0.0'')"
    by blast
  then have
    "gappy_days_completed ! 1 = (fst (gappy_days ! 1), snd (gappy_days ! 1) @ synth) \<and>
     map (\<lambda>r. map_of r col_group) synth = [Some ''B'', Some ''A''] \<and>
     list_all (\<lambda>r. map_of r col_total_issues = Some ''0'' \<and>
                   map_of r col_service_level = Some ''0.0'') synth"
    by (simp add: gappy_days_def example_runtime_def list_all_iff)
  then have
    "\<exists>synth. gappy_days_completed ! 1 = (fst (gappy_days ! 1), snd (gappy_days ! 1) @ synth) \<and>
     map (\<lambda>r. map_of r col_group) synth = [Some ''B'', Some ''A''] \<and>
     list_all (\<lambda>r. map_of r col_total_issues = Some ''0'' \<and>
                   map_of r col_service_level = Some ''0.0'') synth"
    by (rule exI [of _ synth])
  with completion_gappy h show ?thesis by (intro conjI)
qed

text \<open>
  The test of line 158 takes a day with exactly two rows for complete: with three known
  groups A, B and C, the bucket of day 5 with a row for A and a row for B comes back
  unchanged.
\<close>

lemma completion_skips_day_with_two_rows:
  "service_lavel_data_completion example_runtime full_days [''A'', ''B'', ''C''] sl_columns =
     Inr full_days \<and>
   map (\<lambda>r. map_of r col_group) (snd (full_days ! 0)) = [Some ''A'', Some ''B'']"
  by code_simp

text \<open>
  C2. The claim has every synthesized row at \<^verbatim>\<open>100.0\<close> when its day is on or
  before today and at \<^verbatim>\<open>0.0\<close> when it is after today, as the docstring of
  \<^verbatim>\<open>_service_lavel_data_completion\<close> has it (lines 133--134: gaps of past days
  100, gaps of days still to come 0). The code compares the day number with the clock's
  day of the month (lines 145--149), which is another thing once the report is not of
  the clock's month. With the clock at 4 May 2022 (ordinal 738279) and the buckets of 25
  and 26 April, both days have passed and every synthesized row is at \<^verbatim>\<open>0.0\<close>,
  where the claim has \<^verbatim>\<open>100.0\<close>.
\<close>

theorem completion_past_day_of_other_month:
  "day_of april_runtime 738279 = today april_runtime \<and>
   day_of april_runtime 738270 = 25 \<and> day_of april_runtime 738271 = 26 \<and>
   (738270::int) < 738279 \<and> (738271::int) < 738279 \<and>
   service_lavel_data_completion april_runtime april_days [''B'', ''A''] sl_columns =
     Inr [(25, [sl_row ''25'' ''B'' ''0'' ''0'' ''0'' ''0'' ''0.0'',
                sl_row ''25'' ''A'' ''0'' ''0'' ''0'' ''0'' ''0.0'']),
          (26, [sl_row ''26'' ''A'' ''10'' ''7'' ''8'' ''2'' ''80.0'',
                sl_row ''26'' ''B'' ''0'' ''0'' ''0'' ''0'' ''0.0''])]"
  by code_simp

text \<open>
  The other way round, with the clock at 30 April (ordinal 738275) the bucket of 2 May
  (ordinal 738277), a day still to come, gets its rows at \<^verbatim>\<open>100.0\<close>.
\<close>

lemma completion_future_day_of_other_month:
  "day_of april_end_runtime 738275 = today april_end_runtime \<and>
   day_of april_end_runtime 738277 = 2 \<and> (738275::int) < 738277 \<and>
   service_lavel_data_completion april_end_runtime may_days [''B'', ''A''] sl_columns =
     Inr [(2, [sl_row ''2'' ''B'' ''0'' ''0'' ''0'' ''0'' ''100.0'',
               sl_row ''2'' ''A'' ''0'' ''0'' ''0'' ''0'' ''100.0''])]"
  by code_simp

text \<open>
  C9. On buckets that are complete (every day holds exactly one row for each known
  group) the completion changes nothing, so a second run, whatever the clock then
  says, returns what the first run returned.
\<close>

theorem completion_idempotent_on_complete:
  assumes "\<forall>entry \<in> set ds.
     mset (map (\<lambda>r. map_of r col_group) (snd entry)) = mset (map Some groups)"
  shows "service_lavel_data_completion rt ds groups lable = Inr ds \<and>
    bind_res (service_lavel_data_completion rt ds groups lable)
      (\<lambda>ds'. service_lavel_data_completion rt' ds' groups lable) =
    service_lavel_data_completion rt ds groups lable"
proof -
  have once: "service_lavel_data_completion rt0 ds groups lable = Inr ds" for rt0 :: "'c runtime"
  proof -
    have "map_res (complete_day rt0 groups lable) ds = Inr (map (\<lambda>e. e) ds)"
    proof (rule map_res_map)
      fix e assume "e \<in> set ds"
      with assms have "mset (map (\<lambda>r. map_of r col_group) (snd e)) = mset (map Some groups)"
        by blast
      from complete_day_complete [OF this, of rt0 lable "fst e"]
      show "complete_day rt0 groups lable e = Inr e" by simp
    qed
    then show ?thesis by (simp add: service_lavel_data_completion_def)
  qed
  show ?thesis
    using once [of rt] once [of rt'] by (simp add: bind_res_def)
qed

theorem completion_idempotent_on_complete_witness:
  "list_all (\<lambda>entry.
      mset (map (\<lambda>r. map_of r col_group) (snd entry)) = mset (map Some [''B'', ''A'']))
     full_days \<and>
   service_lavel_data_completion example_runtime full_days [''B'', ''A''] sl_columns =
     Inr full_days \<and>
   bind_res (service_lavel_data_completion example_runtime full_days [''B'', ''A''] sl_columns)
     (\<lambda>ds'. service_lavel_data_completion example_runtime ds' [''B'', ''A''] sl_columns) =
     Inr full_days"
proof -
  have h: "\<forall>entry \<in> set full_days.
      mset (map (\<lambda>r. map_of r col_group) (snd entry)) = mset (map Some [''B'', ''A''])"
    by (simp add: full_days_def sl_row_cells)
  note t = completion_idempotent_on_complete [OF h, of example_runtime sl_columns example_runtime]
  from t have once:
    "service_lavel_data_completion example_runtime full_days [''B'', ''A''] sl_columns =
     Inr full_days"
    by (rule conjunct1)
  from t once have twice:
    "bind_res (service_lavel_data_completion example_runtime full_days [''B'', ''A''] sl_columns)
     (\<lambda>ds'. service_lavel_data_completion example_runtime ds' [''B'', ''A''] sl_columns) =
     Inr full_days"
    by simp
  from h have "list_all (\<lambda>entry.
      mset (map (\<lambda>r. map_of r col_group) (snd entry)) = mset (map Some [''B'', ''A'']))
     full_days"
    by (simp add: list_all_iff)
  with once twice show ?thesis by (intro conjI)
qed

subsection \<open>The group names\<close>

text \<open>
  C6. Once the page has been read (it validates, its two dates differ, its labels and
  its rows were found, and every row has a group cell), \<^verbatim>\<open>parse\<close> raises
  \<^verbatim>\<open>CantGetData\<close> when no group name is present; when exactly one is present
  (half of the two expected) it merges in the default names of the configuration and
  raises \<^verbatim>\<open>CantGetData\<close> unless the merged set has exactly two names, in which
  case it goes on with the merged set; with two or more names present it goes on with
  the names found.
\<close>

theorem parse_group_resolution:
  assumes "validate_text p = None"
    and "date_report p = Inr (start_date, end_date)"
    and "start_date \<noteq> end_date"
    and "columns_name p = Inr label"
    and "days_collecion p = Inr day_collection"
    and "map_res (\<lambda>r. getitem r col_group) day_collection = Inr names"
  shows
    "(set names = {} \<longrightarrow> parse rt p = Inl CantGetData) \<and>
     (card (set names) = 1 \<and> card (set (default_group rt) \<union> set names) \<noteq> 2 \<longrightarrow>
        parse rt p = Inl CantGetData) \<and>
     (card (set names) = 1 \<and> card (set (default_group rt) \<union> set names) = 2 \<longrightarrow>
        parse rt p =
          complete_and_format rt
            (forming_days_dict rt (get_date_range start_date end_date) day_collection)
            (py_set (default_group rt @ py_set names)) label) \<and>
     (card (set names) \<ge> 2 \<longrightarrow>
        parse rt p =
          complete_and_format rt
            (forming_days_dict rt (get_date_range start_date end_date) day_collection)
            (py_set names) label)"
proof -
  have zero: "card (set names) = 0 \<longleftrightarrow> set names = {}"
    by simp
  show ?thesis
    unfolding parse_after_rows [OF assms] zero support_group_count_def by auto
qed

theorem parse_group_resolution_witness:
  "validate_text example_page = None \<and>
   date_report example_page = Inr (738280, 738281) \<and>
   (738280::int) \<noteq> 738281 \<and>
   columns_name example_page = Inr sl_columns \<and>
   days_collecion example_page = Inr [sl_row ''5'' ''A'' ''10'' ''7'' ''8'' ''2'' ''80.0''] \<and>
   map_res (\<lambda>r. getitem r col_group) [sl_row ''5'' ''A'' ''10'' ''7'' ''8'' ''2'' ''80.0''] =
     Inr [''A''] \<and>
   parse example_runtime example_page =
     complete_and_format example_runtime
       (forming_days_dict example_runtime (get_date_range 738280 738281)
          [sl_row ''5'' ''A'' ''10'' ''7'' ''8'' ''2'' ''80.0''])
       (py_set (default_group example_runtime @ py_set [''A''])) sl_columns \<and>
   parse example_runtime no_rows_page = Inl CantGetData"
proof -
  have h: "validate_text example_page = None"
    "date_report example_page = Inr (738280, 738281)"
    "(738280::int) \<noteq> 738281"
    "columns_name example_page = Inr sl_columns"
    "days_collecion example_page = Inr [sl_row ''5'' ''A'' ''10'' ''7'' ''8'' ''2'' ''80.0'']"
    by (simp_all add: example_page_def)
  have g: "validate_text no_rows_page = None"
    "date_report no_rows_page = Inr (738280, 738281)"
    "columns_name no_rows_page = Inr sl_columns"
    "days_collecion no_rows_page = Inr []"
    "map_res (\<lambda>r. getitem r col_group) [] = Inr []"
    by (simp_all add: no_rows_page_def example_page_def)
  have c: "card (set [''A'']) = 1 \<and>
    card (set (default_group example_runtime) \<union> set [''A'']) = 2"
    by (simp add: example_runtime_def insert_absorb)
  from parse_group_resolution [OF h example_names, of example_runtime] c
  have 1: "parse example_runtime example_page =
     complete_and_format example_runtime
       (forming_days_dict example_runtime (get_date_range 738280 738281)
          [sl_row ''5'' ''A'' ''10'' ''7'' ''8'' ''2'' ''80.0''])
       (py_set (default_group example_runtime @ py_set [''A''])) sl_columns"
    by blast
  from parse_group_resolution [OF g(1) g(2) h(3) g(3) g(4) g(5), of example_runtime]
  have 2: "parse example_runtime no_rows_page = Inl CantGetData"
    by simp
  from h example_names 1 2 show ?thesis by (intro conjI)
qed

subsection \<open>The grid of days and groups\<close>

text \<open>
  C1 fails as stated: for a report whose two dates are equal (here both 5 May 2022)
  \<^verbatim>\<open>parse\<close> returns the empty tuple, not one per-day list.
\<close>

theorem parse_single_day_no_lists:
  "validate_text one_day_page = None \<and>
   date_report one_day_page = Inr (738280, 738280) \<and>
   (738280::int) \<le> 738280 \<and>
   parse example_runtime one_day_page = Inr [] \<and>
   length ([] :: float_term ServiceLevel list list) \<noteq> nat (738280 - 738280) + 1"
  by (simp add: parse_def one_day_page_def example_page_def)

text \<open>
  C1, amended. Let the page validate, with dates \<open>start_date < end_date\<close>, the seven
  labels of the report and a table that names at most two groups and has no two rows
  for the same day and group; let no day of the month occur twice in the range, and let
  \<^verbatim>\<open>int\<close> read back what \<^verbatim>\<open>str\<close> writes for the days of the range. Then, if
  \<^verbatim>\<open>parse\<close> returns at all, it returns \<open>(end_date - start_date) + 1\<close> per-day
  lists, the \<open>i\<close>-th of them for the \<open>i\<close>-th day of the range (all its records carry
  that day's number), each made of one record for each of the same two group names,
  which include every name in the table, followed by the aggregate record: three
  records.
\<close>

theorem parse_day_grid:
  assumes v: "validate_text p = None"
    and d: "date_report p = Inr (start_date, end_date)"
    and lt: "start_date < end_date"
    and c: "columns_name p = Inr sl_columns"
    and r: "days_collecion p = Inr day_collection"
    and out: "parse rt p = Inr coll"
    and cal: "distinct (map (day_of rt) [start_date..end_date])"
    and iter: "\<forall>g. mset (set_iter rt g) = mset g"
    and two: "card ((\<lambda>r. map_of r col_group) ` set day_collection) \<le> 2"
    and uniq: "\<forall>date \<in> {start_date..end_date}.
        distinct (map (\<lambda>r. map_of r col_group)
          (rows_of_day rt day_collection (day_of rt date)))"
    and rtrip: "\<forall>date \<in> {start_date..end_date}.
        py_int rt (py_str rt (day_of rt date)) = Some (day_of rt date)"
  shows "length coll = nat (end_date - start_date) + 1 \<and>
    (\<exists>G. card G = support_group_count \<and>
       (\<lambda>r. map_of r col_group) ` set day_collection \<subseteq> Some ` G \<and>
       (\<forall>i < length coll.
          length (coll ! i) = support_group_count + 1 \<and>
          distinct (map group_name (butlast (coll ! i))) \<and>
          set (map group_name (butlast (coll ! i))) = G \<and>
          group_name (last (coll ! i)) = total_group \<and>
          (\<forall>rec \<in> set (coll ! i).
             day_number rt (day rec) = Some (day_of rt (start_date + int i)))))"
proof -
  from lt have ne: "start_date \<noteq> end_date" by simp
  from parse_rows_have_groups [OF v d ne c r out] obtain names where
    names: "map_res (\<lambda>r. getitem r col_group) day_collection = Inr names" by blast
  have cells: "map (\<lambda>r. map_of r col_group) day_collection = map Some names"
    using names by (rule map_res_getitem)
  then have img: "(\<lambda>r. map_of r col_group) ` set day_collection = Some ` set names"
    by (metis image_set)
  with two have n2: "card (set names) \<le> 2" by (simp add: card_image)
  define ds where
    "ds = forming_days_dict rt (get_date_range start_date end_date) day_collection"
  define G where "G = (if card (set names) = 1 then py_set (default_group rt @ py_set names)
                       else py_set names)"
  note closed = parse_after_rows [OF v d ne c r names, of rt]
  have n0: "card (set names) \<noteq> 0"
  proof
    assume "card (set names) = 0"
    then have "set names = {}" by simp
    with closed have "parse rt p = Inl CantGetData" by simp
    with out show False by simp
  qed
  with n2 consider (one) "card (set names) = 1" | (both) "card (set names) = 2"
    by linarith
  then have "complete_and_format rt ds G sl_columns = Inr coll \<and> length G = 2"
  proof cases
    case one
    with closed out show ?thesis
      unfolding G_def ds_def support_group_count_def
      by (simp add: length_py_set set_py_set split: if_splits)
  next
    case both
    with closed out show ?thesis
      unfolding G_def ds_def support_group_count_def
      by (simp add: length_py_set)
  qed
  then have caf: "complete_and_format rt ds G sl_columns = Inr coll" and lG: "length G = 2"
    by simp_all
  have dG: "distinct G" unfolding G_def by (simp add: py_set_def)
  have sub: "set names \<subseteq> set G" unfolding G_def by (auto simp: set_py_set)
  have ds: "ds = map (\<lambda>date. (day_of rt date, rows_of_day rt day_collection (day_of rt date)))
                   [start_date..end_date]"
    unfolding ds_def get_date_range_def using cal by (rule forming_days_dict_distinct)
  have lds: "length ds = nat (end_date - start_date) + 1"
    using lt by (simp add: ds)
  have bucket: "\<forall>entry \<in> set ds.
      distinct (map (\<lambda>r. map_of r col_group) (snd entry)) \<and>
      (\<lambda>r. map_of r col_group) ` set (snd entry) \<subseteq> Some ` set G \<and>
      (\<forall>r \<in> set (snd entry). \<exists>t. map_of r col_day = Some t \<and> py_int rt t = Some (fst entry)) \<and>
      py_int rt (py_str rt (fst entry)) = Some (fst entry)"
  proof
    fix entry assume "entry \<in> set ds"
    then obtain date where date: "date \<in> {start_date..end_date}" and
      e: "entry = (day_of rt date, rows_of_day rt day_collection (day_of rt date))"
      unfolding ds by auto
    have "set (rows_of_day rt day_collection (day_of rt date)) \<subseteq> set day_collection"
      by (auto simp: rows_of_day_def)
    then have "(\<lambda>r. map_of r col_group) ` set (snd entry) \<subseteq>
        (\<lambda>r. map_of r col_group) ` set day_collection"
      unfolding e by auto
    also have "\<dots> \<subseteq> Some ` set G" unfolding img using sub by auto
    finally have "(\<lambda>r. map_of r col_group) ` set (snd entry) \<subseteq> Some ` set G" .
    moreover have "\<forall>r \<in> set (snd entry).
        \<exists>t. map_of r col_day = Some t \<and> py_int rt t = Some (fst entry)"
      unfolding e by (auto simp: rows_of_day_def split: option.splits)
    ultimately show "distinct (map (\<lambda>r. map_of r col_group) (snd entry)) \<and>
      (\<lambda>r. map_of r col_group) ` set (snd entry) \<subseteq> Some ` set G \<and>
      (\<forall>r \<in> set (snd entry). \<exists>t. map_of r col_day = Some t \<and> py_int rt t = Some (fst entry)) \<and>
      py_int rt (py_str rt (fst entry)) = Some (fst entry)"
      using uniq date rtrip unfolding e by simp
  qed
  have perm: "mset (set_iter rt G) = mset G" using iter by simp
  have grid: "length coll = length ds \<and> length (coll ! i) = 3 \<and>
    distinct (map group_name (butlast (coll ! i))) \<and>
    set (map group_name (butlast (coll ! i))) = set G \<and>
    group_name (last (coll ! i)) = total_group \<and>
    (\<forall>rec \<in> set (coll ! i). day_number rt (day rec) = Some (fst (ds ! i)))"
    if "i < length ds" for i
    using complete_and_format_grid [OF caf perm dG lG bucket that] .
  have lcoll: "length coll = length ds"
    using grid [of 0] lds by simp
  have key: "fst (ds ! i) = day_of rt (start_date + int i)" if "i < length ds" for i
    using that lds unfolding ds by (simp add: nth_upto)
  have cG: "card (set G) = support_group_count"
    using dG lG by (simp add: distinct_card support_group_count_def)
  have all: "\<forall>i < length coll.
          length (coll ! i) = support_group_count + 1 \<and>
          distinct (map group_name (butlast (coll ! i))) \<and>
          set (map group_name (butlast (coll ! i))) = set G \<and>
          group_name (last (coll ! i)) = total_group \<and>
          (\<forall>rec \<in> set (coll ! i).
             day_number rt (day rec) = Some (day_of rt (start_date + int i)))"
    using grid key unfolding lcoll support_group_count_def by simp
  have cover: "(\<lambda>r. map_of r col_group) ` set day_collection \<subseteq> Some ` set G"
    unfolding img using sub by auto
  have "\<exists>G. card G = support_group_count \<and>
       (\<lambda>r. map_of r col_group) ` set day_collection \<subseteq> Some ` G \<and>
       (\<forall>i < length coll.
          length (coll ! i) = support_group_count + 1 \<and>
          distinct (map group_name (butlast (coll ! i))) \<and>
          set (map group_name (butlast (coll ! i))) = G \<and>
          group_name (last (coll ! i)) = total_group \<and>
          (\<forall>rec \<in> set (coll ! i).
             day_number rt (day rec) = Some (day_of rt (start_date + int i))))"
    by (rule exI [of _ "set G"]) (intro conjI cG cover all)
  moreover have "length coll = nat (end_date - start_date) + 1"
    using lcoll lds by simp
  ultimately show ?thesis by (intro conjI)
qed

theorem parse_day_grid_witness:
  "validate_text example_page = None \<and>
   date_report example_page = Inr (738280, 738281) \<and>
   (738280::int) < 738281 \<and>
   columns_name example_page = Inr sl_columns \<and>
   days_collecion example_page = Inr [sl_row ''5'' ''A'' ''10'' ''7'' ''8'' ''2'' ''80.0''] \<and>
   parse example_runtime example_page = Inr example_records \<and>
   distinct (map (day_of example_runtime) [738280..738281]) \<and>
   (\<forall>g. mset (set_iter example_runtime g) = mset g) \<and>
   card ((\<lambda>r. map_of r col_group) `
     set [sl_row ''5'' ''A'' ''10'' ''7'' ''8'' ''2'' ''80.0'']) \<le> 2 \<and>
   length example_records = nat (738281 - 738280) + 1 \<and>
   length (example_records ! 1) = support_group_count + 1 \<and>
   set (map group_name (butlast (example_records ! 1))) = {''A'', ''B''}"
proof -
  have h: "validate_text example_page = None"
    "date_report example_page = Inr (738280, 738281)"
    "(738280::int) < 738281"
    "columns_name example_page = Inr sl_columns"
    "days_collecion example_page = Inr [sl_row ''5'' ''A'' ''10'' ''7'' ''8'' ''2'' ''80.0'']"
    by (simp_all add: example_page_def)
  have iv: "{738280..738281::int} = {738280, 738281}"
    by auto
  have cal: "distinct (map (day_of example_runtime) [738280..738281])"
    by code_simp
  have iter: "\<forall>g. mset (set_iter example_runtime g) = mset g"
    by (simp add: example_runtime_def)
  have two: "card ((\<lambda>r. map_of r col_group) `
     set [sl_row ''5'' ''A'' ''10'' ''7'' ''8'' ''2'' ''80.0'']) \<le> 2"
    by simp
  have uniq: "\<forall>date \<in> {738280..738281}.
        distinct (map (\<lambda>r. map_of r col_group)
          (rows_of_day example_runtime [sl_row ''5'' ''A'' ''10'' ''7'' ''8'' ''2'' ''80.0'']
             (day_of example_runtime date)))"
    unfolding iv by code_simp
  have rtrip: "\<forall>date \<in> {738280..738281}.
        py_int example_runtime (py_str example_runtime (day_of example_runtime date)) =
        Some (day_of example_runtime date)"
    unfolding iv by code_simp
  note t = parse_day_grid [OF h parse_example cal iter two uniq rtrip]
  from t have len: "length example_records = nat (738281 - 738280) + 1"
    by (rule conjunct1)
  from t obtain G where
    all: "\<forall>i < length example_records.
          length (example_records ! i) = support_group_count + 1 \<and>
          distinct (map group_name (butlast (example_records ! i))) \<and>
          set (map group_name (butlast (example_records ! i))) = G \<and>
          group_name (last (example_records ! i)) = total_group \<and>
          (\<forall>rec \<in> set (example_records ! i).
             day_number example_runtime (day rec) =
               Some (day_of example_runtime (738280 + int i)))"
    by (elim conjE exE)
  have "(1::nat) < length example_records" using len by simp
  with all have one: "length (example_records ! 1) = support_group_count + 1"
    by simp
  have "set (map group_name (butlast (example_records ! 1))) = {''A'', ''B''}"
    by (simp add: example_records_def insert_commute)
  with one have c: "length (example_records ! 1) = support_group_count + 1 \<and>
    set (map group_name (butlast (example_records ! 1))) = {''A'', ''B''}"
    by simp
  from h parse_example cal iter two len c [THEN conjunct1] c [THEN conjunct2]
  show ?thesis by (intro conjI)
qed

text \<open>
  The hypotheses of the amended statement are needed. With three groups in the table
  the completion leaves the day that already has two rows alone, so that day's list has
  three records where four are due; and a range that runs from 1 February to 1 March
  meets the day number 1 twice, so its 29 days make 28 lists.
\<close>

lemma parse_three_groups:
  "map (map group_name)
     (case parse example_runtime three_groups_page of Inr coll \<Rightarrow> coll | Inl e \<Rightarrow> []) =
     [[''A'', ''B'', total_group], [''C'', ''A'', ''B'', total_group]]"
  by code_simp

lemma parse_february:
  "map length
     (case parse february_runtime february_page of Inr coll \<Rightarrow> coll | Inl e \<Rightarrow> []) =
     replicate 28 3 \<and>
   nat (738215 - 738187) + 1 = 29"
  by code_simp

section \<open>Results about the CRM client\<close>

subsection \<open>Auxiliary facts\<close>

lemma checked_text_iff:
  "(checked_text r = Inl ConnectionsFailed) = (status_code r \<noteq> 200 \<or> response_text r = [])"
  "checked_text r \<noteq> Inl ConnectionsFailed \<Longrightarrow> checked_text r = Inr (response_text r)"
  by (auto simp: checked_text_def split: if_splits)

lemma request_arguments_raises: "request_arguments (Request r) = Inl AttributeError"
  by (simp add: request_arguments_def getattr_def bind_res_def)

lemma request_arguments_list_raises: "request_arguments (PyList xs) = Inl AttributeError"
  by (simp add: request_arguments_def getattr_def bind_res_def)

lemma get_crm_response_raises:
  "get_crm_response crm (Request r) w = (Inl AttributeError, w)"
  "get_crm_response crm (PyList xs) w = (Inl AttributeError, w)"
  by (simp_all add: get_crm_response_def request_arguments_raises request_arguments_list_raises)

lemma find_report_uuid_raises:
  assumes "0 \<le> delay_attems"
  shows "find_report_uuid crm parse_naumen_page (request, report_name, delay_attems, num_attems) w =
    (Inl AttributeError, w @ [Slept delay_attems])"
  using assms
  by (simp add: find_report_uuid_def locate_def sleep_def get_crm_response_raises)

lemma searching_retry:
  assumes "0 \<le> delay" and "fetch req (w @ [Slept delay]) = (Inr page, w2)"
    and "parse_page page = Inr []"
  shows "searching fetch parse_page delay n req w =
    (if n \<ge> 1 then searching fetch parse_page delay (n - 1) req w2 else (Inl CantGetData, w2))"
  using assms by (subst searching.simps) (simp add: sleep_def)

lemma searching_found:
  assumes "0 \<le> delay" and "fetch req (w @ [Slept delay]) = (Inr page, w2)"
    and "parse_page page = Inr coll" and "coll \<noteq> []"
  shows "searching fetch parse_page delay n req w = (Inr coll, w2)"
  using assms by (subst searching.simps) (simp add: sleep_def)

lemma locate_ambiguous:
  assumes "0 \<le> delay" and "fetch req (w @ [Slept delay]) = (Inr page, w2)"
    and "parse_page page = Inr coll" and "length coll > 1"
  shows "locate fetch parse_page delay n req w = (Inl CantGetData, w2)"
proof -
  from assms(4) have "coll \<noteq> []" by auto
  with assms(1-3) have "searching fetch parse_page delay n req w = (Inr coll, w2)"
    by (rule searching_found [where fetch = fetch and page = page])
  with assms(4) show ?thesis
    by (simp add: locate_def)
qed

lemma searching_never_listed:
  assumes "0 \<le> delay" and "\<And>w. fetch req w = (Inr page, w @ [ev])"
    and "parse_page page = Inr []"
  shows "searching fetch parse_page delay (int n) req w =
    (Inl CantGetData, w @ concat (replicate (n + 1) [Slept delay, ev]))"
proof (induction n arbitrary: w)
  case 0
  have "fetch req (w @ [Slept delay]) = (Inr page, w @ [Slept delay] @ [ev])"
    by (simp add: assms(2))
  with assms(1) have "searching fetch parse_page delay 0 req w =
    (if (0::int) \<ge> 1 then searching fetch parse_page delay (0 - 1) req (w @ [Slept delay] @ [ev])
     else (Inl CantGetData, w @ [Slept delay] @ [ev]))"
    using assms(3) by (rule searching_retry [where fetch = fetch and page = page])
  then show ?case by simp
next
  case (Suc n)
  have "fetch req (w @ [Slept delay]) = (Inr page, w @ [Slept delay] @ [ev])"
    by (simp add: assms(2))
  with assms(1) have "searching fetch parse_page delay (int (Suc n)) req w =
    (if int (Suc n) \<ge> 1
     then searching fetch parse_page delay (int (Suc n) - 1) req (w @ [Slept delay] @ [ev])
     else (Inl CantGetData, w @ [Slept delay] @ [ev]))"
    using assms(3) by (rule searching_retry [where fetch = fetch and page = page])
  then have "searching fetch parse_page delay (int (Suc n)) req w =
        searching fetch parse_page delay (int n) req (w @ [Slept delay] @ [ev])"
    by simp
  also have "\<dots> = (Inl CantGetData,
      (w @ [Slept delay] @ [ev]) @ concat (replicate (n + 1) [Slept delay, ev]))"
    by (rule Suc.IH)
  finally show ?case by simp
qed

subsection \<open>The submitter\<close>

text \<open>
  C8. The claim holds of the check made on a response (\<open>checked_text_iff\<close>), but
  \<^verbatim>\<open>_get_crm_response\<close> never gets that far: for a request of the declared type
  it raises \<^verbatim>\<open>AttributeError\<close> while evaluating \<^verbatim>\<open>request.header\<close>, before
  anything is sent. Here the session would answer 200 with the body \<^verbatim>\<open>ok\<close>, which
  the rest of the function would return.
\<close>

theorem get_crm_response_good_answer:
  "get_crm_response (session_answering ''ok'') (Request example_request) [] =
     (Inl AttributeError, []) \<and>
   post_and_check (session_answering ''ok'') example_arguments [] =
     (Inr ''ok'', [Posted example_arguments])"
  by (simp add: get_crm_response_raises post_and_check_def session_post_def
      session_answering_def checked_text_def)

subsection \<open>The locator\<close>

text \<open>
  C5. With an attempt budget of 2, a delay of 3 seconds and a listing that never shows
  the report, \<^verbatim>\<open>_find_report_uuid\<close> sleeps once and raises
  \<^verbatim>\<open>AttributeError\<close>: it hands the list made by the starred target of line 333 to
  \<^verbatim>\<open>_get_crm_response\<close>, and no request is sent. The second part runs the same
  search over a submitter that does send the request: the loop then polls three times,
  one more than the budget, before it raises \<^verbatim>\<open>CantGetData\<close>.
\<close>

theorem find_report_uuid_budget_two:
  "find_report_uuid (session_answering ''empty listing'') example_parse_naumen_page
     (example_request, ''ID1234567'', 3, 2) [] = (Inl AttributeError, [Slept 3]) \<and>
   locate (\<lambda>request. post_and_check (session_answering ''empty listing'') example_arguments)
     (\<lambda>page_text. example_parse_naumen_page page_text ''ID1234567'') 3 2
     (PyList [Request example_request]) [] =
     (Inl CantGetData, [Slept 3, Posted example_arguments, Slept 3, Posted example_arguments,
      Slept 3, Posted example_arguments])"
proof -
  have fetch: "post_and_check (session_answering ''empty listing'') example_arguments w =
      (Inr ''empty listing'', w @ [Posted example_arguments])" for w
    by (simp add: post_and_check_def session_post_def session_answering_def checked_text_def)
  have none: "example_parse_naumen_page ''empty listing'' ''ID1234567'' = Inr []"
    by (simp add: example_parse_naumen_page_def)
  have "searching (\<lambda>request. post_and_check (session_answering ''empty listing'') example_arguments)
     (\<lambda>page_text. example_parse_naumen_page page_text ''ID1234567'') 3 (int 2)
     (PyList [Request example_request]) [] =
     (Inl CantGetData, [] @ concat (replicate (2 + 1) [Slept 3, Posted example_arguments]))"
    by (rule searching_never_listed [where page = "''empty listing''"])
      (simp_all add: fetch none)
  then have "locate (\<lambda>request. post_and_check (session_answering ''empty listing'') example_arguments)
     (\<lambda>page_text. example_parse_naumen_page page_text ''ID1234567'') 3 2
     (PyList [Request example_request]) [] =
     (Inl CantGetData, [Slept 3, Posted example_arguments, Slept 3, Posted example_arguments,
      Slept 3, Posted example_arguments])"
    by (simp add: locate_def numeral_3_eq_3)
  then show ?thesis by (simp add: find_report_uuid_raises)
qed

text \<open>
  C7. With a listing that shows two entries of the report's name,
  \<^verbatim>\<open>_find_report_uuid\<close> again sleeps once and raises \<^verbatim>\<open>AttributeError\<close>, not
  \<^verbatim>\<open>CantGetData\<close>. Over a submitter that does send the request the search is as
  the claim says: one poll, then \<^verbatim>\<open>CantGetData\<close>, and no retry
  (\<open>locate_ambiguous\<close> and \<open>searching_retry\<close> state this for every poll).
\<close>

theorem find_report_uuid_two_entries:
  "find_report_uuid (session_answering ''listing with two entries'') example_parse_naumen_page
     (example_request, ''ID1234567'', 3, 2) [] = (Inl AttributeError, [Slept 3]) \<and>
   locate (\<lambda>request. post_and_check (session_answering ''listing with two entries'') example_arguments)
     (\<lambda>page_text. example_parse_naumen_page page_text ''ID1234567'') 3 2
     (PyList [Request example_request]) [] =
     (Inl CantGetData, [Slept 3, Posted example_arguments])"
proof -
  have "locate (\<lambda>request. post_and_check (session_answering ''listing with two entries'') example_arguments)
     (\<lambda>page_text. example_parse_naumen_page page_text ''ID1234567'') 3 2
     (PyList [Request example_request]) [] =
     (Inl CantGetData, [Slept 3, Posted example_arguments])"
    by (rule locate_ambiguous [where page = "''listing with two entries''"
          and coll = "[''uuid-1'', ''uuid-2'']"])
      (simp_all add: post_and_check_def session_post_def session_answering_def
        checked_text_def example_parse_naumen_page_def)
  then show ?thesis by (simp add: find_report_uuid_raises)
qed

end
